theory Spec2Isabelle
  imports Main "HOL-Library.Word" "HOL-Library.Sublist"
begin

section \<open>Strings\<close>

text \<open>
  A TypeScript string is a sequence of UTF-16 code units.  The pattern of
  \<open>_getCodeFileDetails\<close> distinguishes the line terminators U+2028 and U+2029,
  which do not fit into a byte, so a code unit is a 16-bit word.  \<open>js\<close> turns an
  ASCII literal of the source into such a string.
\<close>

type_synonym jschar = "16 word"
type_synonym jsstring = "jschar list"

definition js :: "string \<Rightarrow> jsstring" where
  "js s = map of_char s"

section \<open>The regular expression of \<open>_getCodeFileDetails\<close>\<close>

text \<open>
  The source builds
  \<^verbatim>\<open>new RegExp(`.*vscode_gist_([^_]*)_[^${sep}]*${sep}(.*)`)\<close>
  and calls \<open>doc.fileName.match(regexp)\<close>.  The pattern is a sequence of
  literal text and greedy stars over a character class, two of them captured.
  \<open>Dot\<close> is the class of \<open>.\<close> (every code unit but the four line terminators),
  \<open>NotChar c\<close> the class \<open>[^c]\<close>.
\<close>

datatype cls = Dot | NotChar jschar

datatype atom = Chars jsstring | Star cls | CapStar cls

definition isLineTerminator :: "jschar \<Rightarrow> bool" where
  "isLineTerminator c = (c = 0x0A \<or> c = 0x0D \<or> c = 0x2028 \<or> c = 0x2029)"

fun cls_matches :: "cls \<Rightarrow> jschar \<Rightarrow> bool" where
  "cls_matches Dot c = (\<not> isLineTerminator c)"
| "cls_matches (NotChar d) c = (c \<noteq> d)"

text \<open>
  The backtracking matcher, anchored at the start of the string it is given:
  a greedy star first tries to take one more code unit and falls back to the
  rest of the pattern only when that fails.  The result lists the text of the
  captured groups, in the order of the groups.
\<close>

fun rmatch :: "atom list \<Rightarrow> jsstring \<Rightarrow> jsstring list option" where
  "rmatch [] s = Some []"
| "rmatch (Chars l # r) s =
     (if take (length l) s = l then rmatch r (drop (length l) s) else None)"
| "rmatch (Star k # r) [] = rmatch r []"
| "rmatch (Star k # r) (x # xs) =
     (if cls_matches k x
      then (case rmatch (Star k # r) xs of
              Some g \<Rightarrow> Some g
            | None \<Rightarrow> rmatch r (x # xs))
      else rmatch r (x # xs))"
| "rmatch (CapStar k # r) [] =
     (case rmatch r [] of Some g \<Rightarrow> Some ([] # g) | None \<Rightarrow> None)"
| "rmatch (CapStar k # r) (x # xs) =
     (case (if cls_matches k x then rmatch (CapStar k # r) xs else None) of
        Some (c # g) \<Rightarrow> Some ((x # c) # g)
      | _ \<Rightarrow> (case rmatch r (x # xs) of Some g \<Rightarrow> Some ([] # g) | None \<Rightarrow> None))"

text \<open>
  \<open>String.prototype.match\<close> with a pattern that has no \<open>g\<close> flag: the first
  start index, from the left, at which the pattern matches.
\<close>

fun str_match :: "atom list \<Rightarrow> jsstring \<Rightarrow> jsstring list option" where
  "str_match re [] = rmatch re []"
| "str_match re (x # xs) =
     (case rmatch re (x # xs) of Some g \<Rightarrow> Some g | None \<Rightarrow> str_match re xs)"

section \<open>The Identity Codec\<close>

text \<open>\<open>path.sep\<close>: \<open>/\<close> on POSIX, \<open>\\<close> on Windows.\<close>

datatype platform = Posix | Win32

fun path_sep :: "platform \<Rightarrow> jschar" where
  "path_sep Posix = 0x2F"
| "path_sep Win32 = 0x5C"

text \<open>
  On Windows the source doubles the backslash so that the pattern text
  \<open>[^\\]*\\\<close> denotes the single separator; on both platforms the pattern is
  the one below, \<open>sep\<close> being the one-unit separator.
\<close>

definition tag :: jsstring where
  "tag = js ''vscode_gist_''"

definition regexp :: "platform \<Rightarrow> atom list" where
  "regexp p =
     [Star Dot, Chars tag, CapStar (NotChar 0x5F), Chars [0x5F],
      Star (NotChar (path_sep p)), Chars [path_sep p], CapStar Dot]"

text \<open>
  The host's objects, as far as the source reads them.  \<open>getText\<close> is the
  document's method: without a range (\<open>None\<close>) it yields the whole text, with
  one the text of that range.
\<close>

record Selection =
  anchor :: "nat \<times> nat"
  active :: "nat \<times> nat"

definition isEmpty :: "Selection \<Rightarrow> bool" where
  "isEmpty sel = (anchor sel = active sel)"

record TextDocument =
  fileName :: jsstring
  getText :: "Selection option \<Rightarrow> jsstring"

record TextEditor =
  document :: TextDocument
  selection :: Selection

text \<open>
  The value \<open>_getCodeFileDetails\<close> returns.  The source also stores
  \<open>path: path.dirname(matches[0])\<close>; no function of the source reads that
  field, and it is left out.
\<close>

record CodeFileDetails =
  storageBlockId :: jsstring
  detailsFileName :: jsstring

definition getCodeFileDetails :: "platform \<Rightarrow> TextDocument \<Rightarrow> CodeFileDetails option" where
  "getCodeFileDetails p doc =
     (case str_match (regexp p) (fileName doc) of
        None \<Rightarrow> None
      | Some groups \<Rightarrow>
          Some \<lparr>storageBlockId = groups ! 0, detailsFileName = groups ! 1\<rparr>)"

text \<open>\<open>_createTmpDir\<close> hands \<open>options.prefix + key + '_'\<close> to \<open>tmp.dirSync\<close>.\<close>

definition tmpDirPrefix :: "jsstring \<Rightarrow> jsstring" where
  "tmpDirPrefix key = tag @ key @ [0x5F]"


section \<open>The provider, the host and the runs of a command\<close>

text \<open>
  A \<open>StorageBlock\<close> as the provider returns it.  \<open>files\<close> lists the file names
  with their contents in the order in which \<open>for (let fileName in codeBlock.files)\<close>
  visits them; \<open>hasFile\<close> says whether a name is one of them, that is, an own
  property of the object \<open>codeBlock.files\<close>.
\<close>

record StorageBlock =
  block_id :: jsstring
  url :: jsstring
  html_url :: jsstring
  description :: jsstring
  files :: "(jsstring \<times> jsstring) list"

definition hasFile :: "(jsstring \<times> jsstring) list \<Rightarrow> jsstring \<Rightarrow> bool" where
  "hasFile fs name = (name \<in> set (map fst fs))"

text \<open>
  What a \<open>throw\<close> or a rejected promise carries: a string, an object with a
  \<open>message\<close> (an \<open>Error\<close>), the \<open>TypeError\<close> the runtime raises on a property
  read of \<open>undefined\<close>, or any other value.
\<close>

datatype thrown = StringValue jsstring | ErrorObject jsstring | TypeError | OtherValue

text \<open>
  The call \<open>codeBlock.files.hasOwnProperty(fileName)\<close> looks the method up on
  the object of the files itself.  When the block has a file named
  \<open>hasOwnProperty\<close>, the lookup finds that file, which is no function, and the
  call raises a \<open>TypeError\<close>; otherwise it finds the method of
  \<open>Object.prototype\<close>, which says whether \<open>fileName\<close> is one of the files.
\<close>

definition hasOwnProperty ::
  "(jsstring \<times> jsstring) list \<Rightarrow> jsstring \<Rightarrow> thrown + bool" where
  "hasOwnProperty fs name =
     (if hasFile fs (js ''hasOwnProperty'') then Inl TypeError else Inr (hasFile fs name))"

datatype provider_call =
    IsAuthenticated
  | Login jsstring jsstring
  | ListBlocks bool
  | GetStorageBlock jsstring
  | GetStorageBlockById jsstring
  | CreateFile jsstring "jsstring option" jsstring bool
  | EditFile jsstring jsstring jsstring
  | RemoveFileFromStorageBlock jsstring jsstring
  | DeleteStorageBlock jsstring
  | ChangeDescription jsstring jsstring

text \<open>Everything a command does to the outside, in the order it does it.\<close>

datatype event =
    Provider provider_call
  | ShowInputBox jsstring "jsstring option"
  | ShowQuickPick "StorageBlock list"
  | DirSync jsstring
  | ExecuteCommand jsstring
  | WriteFileSync jsstring jsstring
  | OpenTextDocument jsstring
  | ShowTextDocument jsstring
  | OpenInBrowser jsstring
  | ConsoleError thrown
  | ShowErrorMessage jsstring
  | ShowInformationMessage jsstring

text \<open>
  The surroundings of one run of a command: the selected provider
  (\<open>this._provider\<close>, which the constructor's \<open>_init\<close> has set), the host
  editor, the user's answers, and the library functions \<open>tmp.dirSync\<close>,
  \<open>fs.writeFileSync\<close>, \<open>path.basename\<close> and \<open>path.join\<close>.  A call that can
  fail answers \<open>Inl\<close> with what it throws or rejects with.  The user's answer to
  an input box is \<open>None\<close> when the box is dismissed (\<open>undefined\<close>).
\<close>

record env =
  hostPlatform :: platform
  typeErrorMessage :: jsstring
  providerName :: jsstring
  isAuthenticated :: bool
  login :: "jsstring \<Rightarrow> jsstring \<Rightarrow> thrown + unit"
  listBlocks :: "bool \<Rightarrow> thrown + StorageBlock list"
  getStorageBlock :: "jsstring \<Rightarrow> thrown + StorageBlock"
  getStorageBlockById :: "jsstring \<Rightarrow> thrown + StorageBlock"
  createFile :: "jsstring \<Rightarrow> jsstring option \<Rightarrow> jsstring \<Rightarrow> bool \<Rightarrow> thrown + StorageBlock"
  editFile :: "jsstring \<Rightarrow> jsstring \<Rightarrow> jsstring \<Rightarrow> thrown + unit"
  removeFileFromStorageBlock :: "jsstring \<Rightarrow> jsstring \<Rightarrow> thrown + unit"
  deleteStorageBlock :: "jsstring \<Rightarrow> thrown + unit"
  changeDescription :: "jsstring \<Rightarrow> jsstring \<Rightarrow> thrown + unit"
  activeTextEditor :: "TextEditor option"
  visibleTextEditors :: "TextEditor list"
  showInputBox :: "jsstring \<Rightarrow> jsstring option \<Rightarrow> jsstring option"
  showQuickPick :: "StorageBlock list \<Rightarrow> StorageBlock option"
  executeCommand :: "jsstring \<Rightarrow> thrown + unit"
  openTextDocument :: "jsstring \<Rightarrow> thrown + unit"
  showTextDocument :: "jsstring \<Rightarrow> thrown + unit"
  dirSync :: "jsstring \<Rightarrow> thrown + jsstring"
  writeFileSync :: "jsstring \<Rightarrow> jsstring \<Rightarrow> thrown + unit"
  path_basename :: "jsstring \<Rightarrow> jsstring"
  path_join :: "jsstring \<Rightarrow> jsstring \<Rightarrow> jsstring"

text \<open>
  A run of an \<open>async\<close> function: the events so far, and either the value it
  resolves with (\<open>Inr\<close>) or what it rejects with (\<open>Inl\<close>).
\<close>

type_synonym 'a run = "event list \<times> (thrown + 'a)"

definition ret :: "'a \<Rightarrow> 'a run" where
  "ret a = ([], Inr a)"

definition throw :: "thrown \<Rightarrow> 'a run" where
  "throw e = ([], Inl e)"

definition emit :: "event \<Rightarrow> unit run" where
  "emit ev = ([ev], Inr ())"

definition await :: "event \<Rightarrow> thrown + 'a \<Rightarrow> 'a run" where
  "await ev r = ([ev], r)"

definition andThen :: "'a run \<Rightarrow> ('a \<Rightarrow> 'b run) \<Rightarrow> 'b run" where
  "andThen m f =
     (case m of
        (t, Inl e) \<Rightarrow> (t, Inl e)
      | (t, Inr a) \<Rightarrow> (case f a of (t', r) \<Rightarrow> (t @ t', r)))"

definition tryCatch :: "'a run \<Rightarrow> (thrown \<Rightarrow> 'a run) \<Rightarrow> 'a run" where
  "tryCatch m h =
     (case m of
        (t, Inl e) \<Rightarrow> (case h e of (t', r) \<Rightarrow> (t @ t', r))
      | (t, Inr a) \<Rightarrow> (t, Inr a))"

section \<open>The private helpers of \<open>Commands\<close>\<close>

definition showError :: "env \<Rightarrow> thrown \<Rightarrow> unit run" where
  "showError w error =
     (let msg =
        (case error of
           StringValue s \<Rightarrow> s
         | ErrorObject m \<Rightarrow> if m \<noteq> [] then m else js ''An unknown error occurred''
         | TypeError \<Rightarrow>
             if typeErrorMessage w \<noteq> [] then typeErrorMessage w
             else js ''An unknown error occurred''
         | OtherValue \<Rightarrow> js ''An unknown error occurred'')
      in ([ConsoleError error,
           ShowErrorMessage (js ''GIST ERROR: '' @ msg @ js '' ['' @ providerName w @ js '']'')],
          Inr ()))"

definition prompt :: "env \<Rightarrow> jsstring \<Rightarrow> jsstring option \<Rightarrow> jsstring option run" where
  "prompt w message val = ([ShowInputBox message val], Inr (showInputBox w message val))"

definition notify :: "env \<Rightarrow> jsstring \<Rightarrow> unit run" where
  "notify w message =
     emit (ShowInformationMessage
       (js ''GIST MESSAGE: '' @ message @ js '' ['' @ providerName w @ js '']''))"

definition getFileNameFromPath :: "env \<Rightarrow> jsstring \<Rightarrow> jsstring" where
  "getFileNameFromPath w filePath = path_basename w filePath"

definition getCurrentDocument :: "env \<Rightarrow> CodeFileDetails run" where
  "getCurrentDocument w =
     (case activeTextEditor w of
        None \<Rightarrow> throw (ErrorObject (js ''No open documents''))
      | Some editor \<Rightarrow>
          (case getCodeFileDetails (hostPlatform w) (document editor) of
             None \<Rightarrow> throw (ErrorObject (js ''Not a code block in '' @ providerName w))
           | Some details \<Rightarrow> ret details))"

definition createTmpDir :: "env \<Rightarrow> jsstring \<Rightarrow> jsstring run" where
  "createTmpDir w key = await (DirSync (tmpDirPrefix key)) (dirSync w (tmpDirPrefix key))"

definition openTextDocumentIn :: "env \<Rightarrow> jsstring \<Rightarrow> jsstring \<Rightarrow> jsstring \<Rightarrow> unit run" where
  "openTextDocumentIn w dir filename content =
     (let file = path_join w dir filename in
      andThen (await (WriteFileSync file content) (writeFileSync w file content)) (\<lambda>_.
      andThen (await (OpenTextDocument file) (openTextDocument w file)) (\<lambda>_.
      await (ShowTextDocument file) (showTextDocument w file))))"

text \<open>\<open>String.prototype.trim\<close>: white space and line terminators go, at both ends.\<close>

definition isWhiteSpace :: "jschar \<Rightarrow> bool" where
  "isWhiteSpace c =
     (c \<in> {0x09, 0x0B, 0x0C, 0x20, 0xA0, 0x1680, 0x202F, 0x205F, 0x3000, 0xFEFF}
      \<or> (0x2000 \<le> c \<and> c \<le> 0x200A) \<or> isLineTerminator c)"

definition trim :: "jsstring \<Rightarrow> jsstring" where
  "trim s = rev (dropWhile isWhiteSpace (rev (dropWhile isWhiteSpace s)))"

definition loginUser :: "env \<Rightarrow> unit run" where
  "loginUser w =
     andThen (await (Provider IsAuthenticated) (Inr (isAuthenticated w))) (\<lambda>authenticated.
     if authenticated then ret ()
     else
       andThen (prompt w (js ''Enter your '' @ providerName w @ js '' username'') None) (\<lambda>u.
       case u of
         None \<Rightarrow> throw TypeError
       | Some u' \<Rightarrow>
           andThen (prompt w (js ''Enter your '' @ providerName w @ js '' password.'') None) (\<lambda>pw.
           case pw of
             None \<Rightarrow> throw TypeError
           | Some pw' \<Rightarrow>
               await (Provider (Login (trim u') (trim pw'))) (login w (trim u') (trim pw')))))"

definition selectCodeBlock :: "env \<Rightarrow> bool \<Rightarrow> StorageBlock option run" where
  "selectCodeBlock w favorite =
     andThen (loginUser w) (\<lambda>_.
     andThen (await (Provider (ListBlocks favorite)) (listBlocks w favorite)) (\<lambda>fs.
     andThen (await (ShowQuickPick fs) (Inr (showQuickPick w fs))) (\<lambda>selectedFile.
     case selectedFile of
       None \<Rightarrow> ret None
     | Some sel \<Rightarrow>
         andThen (await (Provider (GetStorageBlock (url sel))) (getStorageBlock w (url sel)))
           (\<lambda>b. ret (Some b)))))"

section \<open>The commands\<close>

text \<open>
  \<open>openCodeBlock\<close>.  The loop over \<open>codeBlock.files\<close> counts the files in
  \<open>i\<close> and splits the editor before every file but the first.
\<close>

fun openFiles :: "env \<Rightarrow> jsstring \<Rightarrow> (jsstring \<times> jsstring) list \<Rightarrow> nat \<Rightarrow> unit run" where
  "openFiles w directory [] i = ret ()"
| "openFiles w directory ((name, content) # rest) i =
     andThen
       (if i + 1 > 1
        then andThen
               (await (ExecuteCommand (js ''workbench.action.focusFirstEditorGroup''))
                  (executeCommand w (js ''workbench.action.focusFirstEditorGroup''))) (\<lambda>_.
             await (ExecuteCommand (js ''workbench.action.splitEditor''))
               (executeCommand w (js ''workbench.action.splitEditor'')))
        else ret ()) (\<lambda>_.
     andThen (openTextDocumentIn w directory name content) (\<lambda>_.
     openFiles w directory rest (i + 1)))"

definition openCodeBlock :: "env \<Rightarrow> bool \<Rightarrow> unit run" where
  "openCodeBlock w favorite =
     tryCatch
       (andThen (selectCodeBlock w favorite) (\<lambda>selected.
        case selected of
          None \<Rightarrow> ret ()
        | Some codeBlock \<Rightarrow>
            andThen (createTmpDir w (block_id codeBlock)) (\<lambda>directory.
            andThen
              (if activeTextEditor w \<noteq> None
               then await (ExecuteCommand (js ''workbench.action.closeOtherEditors''))
                      (executeCommand w (js ''workbench.action.closeOtherEditors''))
               else ret ()) (\<lambda>_.
            openFiles w directory (files codeBlock) 0))))
       (showError w)"

text \<open>
  \<open>createCodeBlock\<close>.  \<open>.substr(0, 1).toLowerCase() === 'y'\<close> holds exactly when
  the answer starts with \<open>y\<close> or \<open>Y\<close>; on an answer that is \<open>undefined\<close> the
  property read raises a \<open>TypeError\<close>.
\<close>

definition startsWithY :: "jsstring \<Rightarrow> bool" where
  "startsWithY s = (take 1 s = js ''y'' \<or> take 1 s = js ''Y'')"

definition editorText :: "TextEditor \<Rightarrow> jsstring" where
  "editorText editor =
     getText (document editor)
       (if isEmpty (selection editor) then None else Some (selection editor))"

definition editorFileName :: "env \<Rightarrow> TextEditor \<Rightarrow> jsstring" where
  "editorFileName w editor =
     (let b = getFileNameFromPath w (fileName (document editor))
      in if b \<noteq> [] then b else js ''untitled.txt'')"

definition createCodeBlock :: "env \<Rightarrow> unit run" where
  "createCodeBlock w =
     tryCatch
       (case activeTextEditor w of
          None \<Rightarrow> throw (ErrorObject (js ''Open a file before creating''))
        | Some editor \<Rightarrow>
            andThen (prompt w (js ''Enter description'') None) (\<lambda>description.
            andThen (prompt w (js ''Private? Y = Yes, N = No'') None) (\<lambda>answer.
            case answer of
              None \<Rightarrow> throw TypeError
            | Some a \<Rightarrow>
                andThen
                  (await (Provider (CreateFile (editorFileName w editor) description
                            (editorText editor) (startsWithY a)))
                     (createFile w (editorFileName w editor) description
                        (editorText editor) (startsWithY a))) (\<lambda>storageBlock.
                emit (OpenInBrowser (html_url storageBlock))))))
       (showError w)"

definition openCodeBlockInBrowser :: "env \<Rightarrow> unit run" where
  "openCodeBlockInBrowser w =
     tryCatch
       (andThen (getCurrentDocument w) (\<lambda>details.
        andThen (await (Provider (GetStorageBlockById (storageBlockId details)))
                   (getStorageBlockById w (storageBlockId details))) (\<lambda>storageBlock.
        emit (OpenInBrowser (html_url storageBlock)))))
       (showError w)"

text \<open>
  \<open>deleteCodeBlock\<close>.  The loop over \<open>window.visibleTextEditors\<close> sends one
  \<open>workbench.action.closeActiveEditor\<close> for every editor of the deleted block;
  the command is not awaited.
\<close>

fun closeEditors :: "env \<Rightarrow> CodeFileDetails \<Rightarrow> TextEditor list \<Rightarrow> unit run" where
  "closeEditors w details [] = ret ()"
| "closeEditors w details (e # es) =
     andThen
       (case getCodeFileDetails (hostPlatform w) (document e) of
          None \<Rightarrow> ret ()
        | Some d \<Rightarrow>
            if storageBlockId d = storageBlockId details
            then emit (ExecuteCommand (js ''workbench.action.closeActiveEditor''))
            else ret ()) (\<lambda>_.
     closeEditors w details es)"

definition deleteCodeBlock :: "env \<Rightarrow> unit run" where
  "deleteCodeBlock w =
     tryCatch
       (andThen (getCurrentDocument w) (\<lambda>details.
        andThen (await (Provider (DeleteStorageBlock (storageBlockId details)))
                   (deleteStorageBlock w (storageBlockId details))) (\<lambda>_.
        andThen (closeEditors w details (visibleTextEditors w)) (\<lambda>_.
        notify w (js ''Block Deleted'')))))
       (showError w)"

definition removeFileFromCodeBlock :: "env \<Rightarrow> unit run" where
  "removeFileFromCodeBlock w =
     tryCatch
       (andThen (getCurrentDocument w) (\<lambda>details.
        andThen (await (Provider (RemoveFileFromStorageBlock (storageBlockId details)
                                    (detailsFileName details)))
                   (removeFileFromStorageBlock w (storageBlockId details)
                      (detailsFileName details))) (\<lambda>_.
        andThen (emit (ExecuteCommand (js ''workbench.action.closeActiveEditor''))) (\<lambda>_.
        notify w (js ''File Removed From Block'')))))
       (showError w)"

text \<open>
  \<open>addToCodeBlock\<close>.  \<open>numberToString\<close> is the decimal text \<open>+ i\<close> appends,
  \<open>lastIndexOf\<close> the index of the last \<open>.\<close> or \<open>-1\<close>, and \<open>numberedName\<close> the
  name the body of the \<open>while\<close> loop builds from \<open>originalFileName\<close> and \<open>i\<close>.
\<close>

fun numberToString :: "nat \<Rightarrow> jsstring" where
  "numberToString n =
     (if n < 10 then [0x30 + of_nat n]
      else numberToString (n div 10) @ [0x30 + of_nat (n mod 10)])"

declare numberToString.simps [simp del]

definition lastIndexOf :: "jsstring \<Rightarrow> jschar \<Rightarrow> int" where
  "lastIndexOf s c =
     (if c \<in> set s
      then int (length s) - 1 - int (length (takeWhile (\<lambda>x. x \<noteq> c) (rev s)))
      else - 1)"

definition extPosOf :: "jsstring \<Rightarrow> nat" where
  "extPosOf originalFileName =
     (let extPos = lastIndexOf originalFileName 0x2E
      in if extPos = - 1 then length originalFileName else nat extPos)"

definition numberedName :: "jsstring \<Rightarrow> nat \<Rightarrow> jsstring" where
  "numberedName originalFileName i =
     (let extPos = extPosOf originalFileName;
          ext = drop extPos originalFileName
      in take extPos originalFileName @ numberToString i @ ext)"

lemma digit_unat: "d < 10 \<Longrightarrow> unat (word_of_nat d :: jschar) = d"
proof -
  assume "d < 10"
  then have "d < 2 ^ LENGTH(16)" by simp
  then show ?thesis by (rule of_nat_inverse [OF refl])
qed

lemma numberToString_value:
  "foldl (\<lambda>a c. 10 * a + unat (c - 0x30)) 0 (numberToString n) = n"
proof (induction n rule: numberToString.induct)
  case (1 n)
  show ?case
  proof (cases "n < 10")
    case True
    then show ?thesis by (simp add: numberToString.simps [of n] digit_unat)
  next
    case False
    have "n mod 10 < 10" by simp
    then have d: "unat (word_of_nat (n mod 10) :: jschar) = n mod 10"
      by (rule digit_unat)
    show ?thesis using False 1 d
      by (simp add: numberToString.simps [of n])
  qed
qed

lemma numberToString_inj: "numberToString m = numberToString n \<Longrightarrow> m = n"
  by (metis numberToString_value)

lemma numberedName_inj: "inj (numberedName orig)"
  by (rule injI) (simp add: numberedName_def Let_def numberToString_inj)

lemma finite_numbered: "finite {j. numberedName orig j \<in> set keys}"
proof -
  have "finite (numberedName orig -` set keys)"
    by (rule finite_vimageI [OF _ numberedName_inj]) simp
  then show ?thesis by (simp add: vimage_def)
qed

text \<open>
  The \<open>while\<close> loop of \<open>addToCodeBlock\<close>, on the state \<open>fileName\<close>, \<open>i\<close>; it
  throws what its test throws.  It ends because the names it tries are all
  different and the block has finitely many files.
\<close>

function collisionLoop ::
  "(jsstring \<times> jsstring) list \<Rightarrow> jsstring \<Rightarrow> jsstring \<Rightarrow> nat \<Rightarrow> thrown + jsstring" where
  "collisionLoop fs originalFileName name i =
     (case hasOwnProperty fs name of
        Inl e \<Rightarrow> Inl e
      | Inr taken \<Rightarrow>
          if taken
          then collisionLoop fs originalFileName (numberedName originalFileName i) (i + 1)
          else Inr name)"
  by pat_completeness auto
termination
proof (relation "measure (\<lambda>(fs, orig, name, i).
         card {j. i \<le> j \<and> hasFile fs (numberedName orig j)}
         + (if hasFile fs name then 1 else 0))")
  show "wf (measure (\<lambda>(fs, orig, name, i).
         card {j. i \<le> j \<and> hasFile fs (numberedName orig j)}
         + (if hasFile fs name then 1 else 0)))"
    by simp
next
  fix fs :: "(jsstring \<times> jsstring) list" and originalFileName name :: jsstring and i :: nat
    and taken :: bool
  assume "hasOwnProperty fs name = Inr taken" and "taken"
  then have h: "hasFile fs name"
    by (auto simp: hasOwnProperty_def split: if_splits)
  let ?A = "\<lambda>k. {j. k \<le> j \<and> hasFile fs (numberedName originalFileName j)}"
  have fin: "finite (?A i)"
    using finite_numbered [of originalFileName "map fst fs"]
    by (simp add: hasFile_def)
  have "card (?A (i + 1))
          + (if hasFile fs (numberedName originalFileName i) then 1 else 0)
        = card (?A i)"
  proof (cases "hasFile fs (numberedName originalFileName i)")
    case True
    have eq: "?A i = insert i (?A (i + 1))" using True by (auto simp: le_Suc_eq)
    have "i \<notin> ?A (i + 1)" by simp
    moreover have "finite (?A (i + 1))" using fin by (rule rev_finite_subset) auto
    ultimately show ?thesis using True unfolding eq by simp
  next
    case False
    have "?A i = ?A (i + 1)" using False
      by (auto simp: Suc_le_eq) (metis le_neq_implies_less)
    then show ?thesis using False by simp
  qed
  then show "((fs, originalFileName, numberedName originalFileName i, i + 1),
              (fs, originalFileName, name, i))
        \<in> measure (\<lambda>(fs, orig, name, i).
            card {j. i \<le> j \<and> hasFile fs (numberedName orig j)}
            + (if hasFile fs name then 1 else 0))"
    using h by simp
qed

declare collisionLoop.simps [simp del]

definition addToCodeBlock :: "env \<Rightarrow> unit run" where
  "addToCodeBlock w =
     tryCatch
       (case activeTextEditor w of
          None \<Rightarrow> throw (ErrorObject (js ''Open a file before adding''))
        | Some editor \<Rightarrow>
            andThen (selectCodeBlock w False) (\<lambda>selected.
            case selected of
              None \<Rightarrow> ret ()
            | Some codeBlock \<Rightarrow>
                (case collisionLoop (files codeBlock) (editorFileName w editor)
                        (editorFileName w editor) 1 of
                   Inl e \<Rightarrow> throw e
                 | Inr name \<Rightarrow>
                     andThen
                       (await (Provider (EditFile (block_id codeBlock) name (editorText editor)))
                          (editFile w (block_id codeBlock) name (editorText editor))) (\<lambda>_.
                     notify w (js ''File Added To Block'')))))
       (showError w)"

text \<open>
  \<open>changeCodeBlockDescription\<close>.  \<open>if (!description)\<close> holds for a dismissed
  box (\<open>undefined\<close>) and for the empty string.
\<close>

definition changeCodeBlockDescription :: "env \<Rightarrow> unit run" where
  "changeCodeBlockDescription w =
     tryCatch
       (andThen (getCurrentDocument w) (\<lambda>details.
        andThen (await (Provider (GetStorageBlockById (storageBlockId details)))
                   (getStorageBlockById w (storageBlockId details))) (\<lambda>codeBlock.
        andThen (prompt w (js ''Enter Description'') (Some (description codeBlock)))
          (\<lambda>answer.
        case answer of
          None \<Rightarrow> ret ()
        | Some d \<Rightarrow>
            if d = [] then ret ()
            else andThen
                   (await (Provider (ChangeDescription (storageBlockId details) d))
                      (changeDescription w (storageBlockId details) d)) (\<lambda>_.
                 notify w (js ''Block Description Saved''))))))
       (showError w)"

text \<open>
  \<open>onSaveTextDocument\<close>.  The first statement,
  \<open>const {storageBlockId, fileName} = this._getCodeFileDetails(doc)\<close>, stands
  before the \<open>try\<close>: when \<open>_getCodeFileDetails\<close> returns \<open>undefined\<close> the
  destructuring raises a \<open>TypeError\<close> that no handler of the function catches,
  and the promise of the \<open>async\<close> function is rejected with it.
  \<open>if (storageBlockId)\<close> fails for the empty string.
\<close>

definition onSaveTextDocument :: "env \<Rightarrow> TextDocument \<Rightarrow> unit run" where
  "onSaveTextDocument w doc =
     (case getCodeFileDetails (hostPlatform w) doc of
        None \<Rightarrow> throw TypeError
      | Some details \<Rightarrow>
          tryCatch
            (if storageBlockId details \<noteq> []
             then andThen
                    (await (Provider (EditFile (storageBlockId details)
                              (detailsFileName details) (getText doc None)))
                       (editFile w (storageBlockId details) (detailsFileName details)
                          (getText doc None))) (\<lambda>_.
                  notify w (js ''File Saved To Block''))
             else ret ())
            (showError w))"

section \<open>Vocabulary of the statements\<close>

text \<open>
  The pattern after its leading \<open>.*\<close>.
\<close>

definition tail_re :: "platform \<Rightarrow> atom list" where
  "tail_re p = [Chars tag, CapStar (NotChar 0x5F), Chars [0x5F],
      Star (NotChar (path_sep p)), Chars [path_sep p], CapStar Dot]"

text \<open>
  The document at a path (its text plays no part in decoding), and a string
  without line terminators.
\<close>

definition docAt :: "jsstring \<Rightarrow> TextDocument" where
  "docAt path = \<lparr>fileName = path, getText = (\<lambda>_. [])\<rparr>"

definition hasNoLineTerminator :: "jsstring \<Rightarrow> bool" where
  "hasNoLineTerminator s = (\<forall>c\<in>set s. \<not> isLineTerminator c)"

text \<open>
  \<open>listGated w authed t\<close> reads the events \<open>t\<close> from the left and remembers in
  \<open>authed\<close> whether \<open>isAuthenticated()\<close> has answered true or a \<open>login\<close> has
  succeeded so far; it fails at a \<open>list\<close> that comes before either.
\<close>

fun listGated :: "env \<Rightarrow> bool \<Rightarrow> event list \<Rightarrow> bool" where
  "listGated w authed [] = True"
| "listGated w authed (Provider IsAuthenticated # es) =
     listGated w (authed \<or> isAuthenticated w) es"
| "listGated w authed (Provider (Login u p) # es) =
     listGated w (authed \<or> login w u p = Inr ()) es"
| "listGated w authed (Provider (ListBlocks f) # es) = (authed \<and> listGated w authed es)"
| "listGated w authed (e # es) = listGated w authed es"

text \<open>
  No call of the provider's \<open>list\<close> among the events.
\<close>

definition noList :: "event list \<Rightarrow> bool" where
  "noList t = (\<forall>f. Provider (ListBlocks f) \<notin> set t)"

text \<open>
  The host's side of \<open>workbench.action.closeActiveEditor\<close>: the command names
  no editor; the host closes the editor that has the focus, and the focus
  passes to the editor used most recently before it.  \<open>hostAfter t eds\<close> are the
  editors left of \<open>eds\<close> (listed from the focused one in the order of last
  use) after the commands of the run \<open>t\<close>.
\<close>

fun hostAfter :: "event list \<Rightarrow> TextEditor list \<Rightarrow> TextEditor list" where
  "hostAfter [] eds = eds"
| "hostAfter (ExecuteCommand c # es) eds =
     hostAfter es (if c = js ''workbench.action.closeActiveEditor'' then tl eds else eds)"
| "hostAfter (e # es) eds = hostAfter es eds"

text \<open>
  The paths shown in an editor and the error notifications of a run, and the
  events of opening the files of a block one after the other when no call
  fails: for each file a write, an open and a show of \<open>path.join(dir, name)\<close>,
  after a split of the first editor group for every file but the first.
\<close>

fun shownPaths :: "event list \<Rightarrow> jsstring list" where
  "shownPaths [] = []"
| "shownPaths (ShowTextDocument path # es) = path # shownPaths es"
| "shownPaths (e # es) = shownPaths es"

fun errorsShown :: "event list \<Rightarrow> jsstring list" where
  "errorsShown [] = []"
| "errorsShown (ShowErrorMessage m # es) = m # errorsShown es"
| "errorsShown (e # es) = errorsShown es"

fun openEvents :: "env \<Rightarrow> jsstring \<Rightarrow> (jsstring \<times> jsstring) list \<Rightarrow> nat \<Rightarrow> event list" where
  "openEvents w dir [] i = []"
| "openEvents w dir ((name, content) # rest) i =
     (if i = 0 then []
      else [ExecuteCommand (js ''workbench.action.focusFirstEditorGroup''),
            ExecuteCommand (js ''workbench.action.splitEditor'')])
     @ [WriteFileSync (path_join w dir name) content,
        OpenTextDocument (path_join w dir name),
        ShowTextDocument (path_join w dir name)]
     @ openEvents w dir rest (i + 1)"

section \<open>Concrete surroundings\<close>

text \<open>
  A POSIX host on which every call succeeds, no editor is open and the user
  dismisses every box; \<open>tmp.dirSync\<close> appends \<open>4711xYz\<close> to the prefix under
  \<open>/tmp/\<close>.  The examples below change it field by field.
\<close>

definition env0 :: env where
  "env0 =
     \<lparr>hostPlatform = Posix,
      typeErrorMessage = js ''Cannot read property of undefined'',
      providerName = js ''gist'',
      isAuthenticated = True,
      login = (\<lambda>_ _. Inr ()),
      listBlocks = (\<lambda>_. Inr []),
      getStorageBlock = (\<lambda>_. Inl (ErrorObject (js ''Not Found''))),
      getStorageBlockById = (\<lambda>_. Inl (ErrorObject (js ''Not Found''))),
      createFile = (\<lambda>_ _ _ _. Inl (ErrorObject (js ''Not Found''))),
      editFile = (\<lambda>_ _ _. Inr ()),
      removeFileFromStorageBlock = (\<lambda>_ _. Inr ()),
      deleteStorageBlock = (\<lambda>_. Inr ()),
      changeDescription = (\<lambda>_ _. Inr ()),
      activeTextEditor = None,
      visibleTextEditors = [],
      showInputBox = (\<lambda>_ _. None),
      showQuickPick = (\<lambda>_. None),
      executeCommand = (\<lambda>_. Inr ()),
      openTextDocument = (\<lambda>_. Inr ()),
      showTextDocument = (\<lambda>_. Inr ()),
      dirSync = (\<lambda>prefix. Inr (js ''/tmp/'' @ prefix @ js ''4711xYz'')),
      writeFileSync = (\<lambda>_ _. Inr ()),
      path_basename = (\<lambda>path. rev (takeWhile (\<lambda>c. c \<noteq> 0x2F) (rev path))),
      path_join = (\<lambda>dir name. dir @ 0x2F # name)\<rparr>"

text \<open>
  The blocks of the examples: \<open>abc123\<close> with the files \<open>a.txt\<close> and \<open>a1.txt\<close>,
  \<open>xyz789\<close> with the file \<open>readme\<close>, a block whose id \<open>a_b\<close> has an underscore,
  \<open>abc123\<close> with the files \<open>index.js\<close> and \<open>style.css\<close>, and a block with a file
  named \<open>hasOwnProperty\<close>.
\<close>

definition blockA :: StorageBlock where
  "blockA =
     \<lparr>block_id = js ''abc123'', url = js ''https://api/abc123'',
      html_url = js ''https://web/abc123'', description = js ''two files'',
      files = [(js ''a.txt'', js ''one''), (js ''a1.txt'', js ''two'')]\<rparr>"

definition blockR :: StorageBlock where
  "blockR =
     \<lparr>block_id = js ''xyz789'', url = js ''https://api/xyz789'',
      html_url = js ''https://web/xyz789'', description = js ''notes'',
      files = [(js ''readme'', js ''hello'')]\<rparr>"

definition blockU :: StorageBlock where
  "blockU =
     \<lparr>block_id = js ''a_b'', url = js ''https://api/a_b'',
      html_url = js ''https://web/a_b'', description = js ''one file'',
      files = [(js ''f.txt'', js ''text'')]\<rparr>"

definition blockH :: StorageBlock where
  "blockH =
     \<lparr>block_id = js ''def456'', url = js ''https://api/def456'',
      html_url = js ''https://web/def456'', description = js ''a snippet'',
      files = [(js ''hasOwnProperty'', js ''x in o'')]\<rparr>"

definition blockJ :: StorageBlock where
  "blockJ =
     \<lparr>block_id = js ''abc123'', url = js ''https://api/abc123'',
      html_url = js ''https://web/abc123'', description = js ''a page'',
      files = [(js ''index.js'', js ''let x''), (js ''style.css'', js ''p {}'')]\<rparr>"

text \<open>
  Editors: one with an empty selection on a document at a path, one with the
  selected text \<open>sel\<close>, and three visible ones, two of block \<open>abc123\<close> and one of
  block \<open>xyz789\<close>.
\<close>

definition editorOf :: "jsstring \<Rightarrow> jsstring \<Rightarrow> TextEditor" where
  "editorOf path content =
     \<lparr>document = \<lparr>fileName = path, getText = (\<lambda>r. case r of None \<Rightarrow> content | Some _ \<Rightarrow> [])\<rparr>,
      selection = \<lparr>anchor = (0, 0), active = (0, 0)\<rparr>\<rparr>"

definition editorSel :: TextEditor where
  "editorSel =
     \<lparr>document = \<lparr>fileName = js ''/home/u/notes.txt'',
                   getText = (\<lambda>r. case r of None \<Rightarrow> js ''whole text''
                                    | Some _ \<Rightarrow> js ''sel'')\<rparr>,
      selection = \<lparr>anchor = (0, 0), active = (0, 3)\<rparr>\<rparr>"

definition editorA :: TextEditor where
  "editorA = editorOf (js ''/tmp/vscode_gist_abc123_4711xYz/a.txt'') (js ''one'')"

definition editorB :: TextEditor where
  "editorB = editorOf (js ''/tmp/vscode_gist_abc123_4711xYz/b.txt'') (js ''two'')"

definition editorX :: TextEditor where
  "editorX = editorOf (js ''/tmp/vscode_gist_xyz789_0815abc/c.txt'') (js ''three'')"

text \<open>
  Surroundings of the runs below: the user picks the one block listed and adds
  the focused file (in \<open>envShadow\<close> the file \<open>a.txt\<close> to the block with the file
  named \<open>hasOwnProperty\<close>); the user answers \<open>demo\<close> and \<open>Yes\<close> to create a block; the
  focused editor belongs to block \<open>abc123\<close> and the user answers the description
  box; the provider is not authenticated and answers the login of \<open>ann\<close>; three
  editors are visible when the block is deleted; the user picks the one block
  listed to open it.
\<close>

definition envAdd :: "StorageBlock \<Rightarrow> jsstring \<Rightarrow> env" where
  "envAdd b path =
     env0\<lparr>listBlocks := (\<lambda>_. Inr [b]),
          showQuickPick := (\<lambda>bs. Some b),
          getStorageBlock := (\<lambda>_. Inr b),
          activeTextEditor := Some (editorOf path (js ''text''))\<rparr>"

definition envShadow :: env where
  "envShadow =
     (envAdd blockH (js ''/home/u/a.txt''))
       \<lparr>typeErrorMessage := js ''codeBlock.files.hasOwnProperty is not a function''\<rparr>"

definition envCreate :: env where
  "envCreate =
     env0\<lparr>activeTextEditor := Some editorSel,
          showInputBox := (\<lambda>message _.
             if message = js ''Enter description'' then Some (js ''demo'') else Some (js ''Yes'')),
          createFile := (\<lambda>_ _ _ _. Inr blockA)\<rparr>"

definition envDescribe :: "jsstring option \<Rightarrow> env" where
  "envDescribe answer =
     env0\<lparr>activeTextEditor :=
            Some (editorOf (js ''/tmp/vscode_gist_abc123_4711xYz/a.txt'') (js ''one'')),
          getStorageBlockById := (\<lambda>_. Inr blockA),
          showInputBox := (\<lambda>_ _. answer)\<rparr>"

definition envLogin :: "thrown + unit \<Rightarrow> env" where
  "envLogin answer =
     (envAdd blockA (js ''/home/u/a.txt''))
       \<lparr>isAuthenticated := False,
        login := (\<lambda>_ _. answer),
        showInputBox := (\<lambda>message _.
           if message = js ''Enter your gist username'' then Some (js '' ann '')
           else Some (js ''secret''))\<rparr>"

definition envDelete :: env where
  "envDelete =
     env0\<lparr>activeTextEditor := Some editorA,
          visibleTextEditors := [editorA, editorB, editorX]\<rparr>"

definition envOpen :: "StorageBlock \<Rightarrow> env" where
  "envOpen b =
     env0\<lparr>listBlocks := (\<lambda>_. Inr [b]),
          showQuickPick := (\<lambda>bs. Some b),
          getStorageBlock := (\<lambda>_. Inr b)\<rparr>"

lemmas run_defs =
  ret_def throw_def emit_def await_def andThen_def tryCatch_def showError_def prompt_def
  notify_def

lemmas codec_defs =
  getCodeFileDetails_def docAt_def regexp_def tmpDirPrefix_def tag_def js_def
  isLineTerminator_def

lemmas add_run_defs =
  addToCodeBlock_def selectCodeBlock_def loginUser_def envLogin_def envAdd_def
  env0_def run_defs editorOf_def editorFileName_def getFileNameFromPath_def
  editorText_def isEmpty_def blockA_def collisionLoop.simps hasOwnProperty_def hasFile_def
  numberedName_def extPosOf_def lastIndexOf_def numberToString.simps js_def Let_def
  trim_def isWhiteSpace_def isLineTerminator_def

lemmas open_run_defs =
  openCodeBlock_def selectCodeBlock_def loginUser_def createTmpDir_def
  openTextDocumentIn_def envOpen_def env0_def run_defs tmpDirPrefix_def tag_def js_def Let_def

section \<open>Facts about the matcher\<close>

lemma star_none:
  "(\<And>t. suffix t s \<Longrightarrow> rmatch r t = None) \<Longrightarrow> rmatch (Star k # r) s = None"
proof (induction s)
  case Nil
  then show ?case by simp
next
  case (Cons x xs)
  have a: "rmatch r (x # xs) = None" using Cons.prems by simp
  have b: "rmatch (Star k # r) xs = None"
    using Cons.IH Cons.prems by (simp add: suffix_Cons)
  show ?case using a b by simp
qed

lemma star_some:
  "rmatch r s = Some g \<Longrightarrow> \<exists>g'. rmatch (Star k # r) s = Some g'"
  by (cases s) (auto split: option.splits)

lemma capstar_last:
  "rmatch [CapStar k] s = Some [takeWhile (cls_matches k) s]"
  by (induction s) auto

lemma capstar_then_char:
  assumes "\<not> cls_matches k d"
  shows "rmatch (CapStar k # Chars [d] # r) s =
    (case dropWhile (cls_matches k) s of
       [] \<Rightarrow> None
     | y # ys \<Rightarrow> if y = d
         then (case rmatch r ys of None \<Rightarrow> None
               | Some g \<Rightarrow> Some (takeWhile (cls_matches k) s # g))
         else None)"
proof (induction s)
  case Nil
  then show ?case by simp
next
  case (Cons x xs)
  note IH = Cons.IH
  show ?case
  proof (cases "cls_matches k x")
    case True
    then have ne: "x \<noteq> d" using assms by auto
    show ?thesis
    proof (cases "dropWhile (cls_matches k) xs")
      case Nil
      show ?thesis by (simp add: True ne IH Nil del: dropWhile_eq_Nil_conv)
    next
      case (Cons y ys)
      show ?thesis
        by (cases "rmatch r ys") (simp_all add: True ne IH Cons)
    qed
  next
    case False
    then show ?thesis using assms by (cases "rmatch r xs") auto
  qed
qed

lemma star_then_char:
  assumes "\<not> cls_matches k d"
  shows "rmatch (Star k # Chars [d] # r) s =
    (case dropWhile (cls_matches k) s of
       [] \<Rightarrow> None
     | y # ys \<Rightarrow> if y = d then rmatch r ys else None)"
proof (induction s)
  case Nil
  then show ?case by simp
next
  case (Cons x xs)
  note IH = Cons.IH
  show ?case
  proof (cases "cls_matches k x")
    case True
    then have ne: "x \<noteq> d" using assms by auto
    show ?thesis
    proof (cases "dropWhile (cls_matches k) xs")
      case Nil
      show ?thesis by (simp add: True ne IH Nil del: dropWhile_eq_Nil_conv)
    next
      case (Cons y ys)
      show ?thesis
        by (cases "rmatch r ys") (simp_all add: True ne IH Cons)
    qed
  next
    case False
    then show ?thesis by simp
  qed
qed

lemma regexp_tail: "regexp p = Star Dot # tail_re p"
  by (simp add: regexp_def tail_re_def)

lemma length_tag: "length tag = 12"
  by (simp add: tag_def js_def)

lemma tail_re_match:
  "rmatch (tail_re p) s =
    (if take 12 s = tag
     then (case dropWhile (\<lambda>c. c \<noteq> 0x5F) (drop 12 s) of
             [] \<Rightarrow> None
           | y # ys \<Rightarrow>
               (case dropWhile (\<lambda>c. c \<noteq> path_sep p) ys of
                  [] \<Rightarrow> None
                | z # zs \<Rightarrow>
                    Some [takeWhile (\<lambda>c. c \<noteq> 0x5F) (drop 12 s),
                          takeWhile (\<lambda>c. \<not> isLineTerminator c) zs]))
     else None)"
proof -
  have c1: "cls_matches (NotChar 0x5F) = (\<lambda>c. c \<noteq> 0x5F)" by (rule ext) simp
  have c2: "cls_matches (NotChar (path_sep p)) = (\<lambda>c. c \<noteq> path_sep p)" by (rule ext) simp
  have c3: "cls_matches Dot = (\<lambda>c. \<not> isLineTerminator c)" by (rule ext) simp
  have n1: "\<not> cls_matches (NotChar 0x5F) 0x5F" by simp
  have n2: "\<not> cls_matches (NotChar (path_sep p)) (path_sep p)" by simp
  have a: "rmatch [Star (NotChar (path_sep p)), Chars [path_sep p], CapStar Dot] t =
    (case dropWhile (\<lambda>c. c \<noteq> path_sep p) t of [] \<Rightarrow> None
     | z # zs \<Rightarrow> Some [takeWhile (\<lambda>c. \<not> isLineTerminator c) zs])" for t
  proof (cases "dropWhile (\<lambda>c. c \<noteq> path_sep p) t")
    case Nil
    show ?thesis unfolding star_then_char [OF n2] capstar_last c2 c3
      by (simp add: Nil del: dropWhile_eq_Nil_conv)
  next
    case (Cons z zs)
    then have "z = path_sep p" using hd_dropWhile [of "\<lambda>c. c \<noteq> path_sep p" t] by auto
    then show ?thesis unfolding star_then_char [OF n2] capstar_last c2 c3
      by (simp add: Cons)
  qed
  have b: "rmatch [CapStar (NotChar 0x5F), Chars [0x5F],
                   Star (NotChar (path_sep p)), Chars [path_sep p], CapStar Dot] t =
    (case dropWhile (\<lambda>c. c \<noteq> 0x5F) t of [] \<Rightarrow> None
     | y # ys \<Rightarrow> (case dropWhile (\<lambda>c. c \<noteq> path_sep p) ys of [] \<Rightarrow> None
         | z # zs \<Rightarrow> Some [takeWhile (\<lambda>c. c \<noteq> 0x5F) t,
                           takeWhile (\<lambda>c. \<not> isLineTerminator c) zs]))" for t
  proof (cases "dropWhile (\<lambda>c. c \<noteq> 0x5F) t")
    case Nil
    show ?thesis unfolding capstar_then_char [OF n1] c1
      by (simp add: Nil del: dropWhile_eq_Nil_conv)
  next
    case (Cons y ys)
    then have y: "y = 0x5F" using hd_dropWhile [of "\<lambda>c. c \<noteq> 0x5F" t] by auto
    show ?thesis
    proof (cases "dropWhile (\<lambda>c. c \<noteq> path_sep p) ys")
      case Nil
      show ?thesis unfolding capstar_then_char [OF n1] c1 a
        by (simp add: Cons y Nil del: dropWhile_eq_Nil_conv)
    next
      case inner: (Cons z zs)
      show ?thesis unfolding capstar_then_char [OF n1] c1 a
        by (simp add: Cons y inner)
    qed
  qed
  show ?thesis
    unfolding tail_re_def rmatch.simps(2) length_tag b by simp
qed

lemma star_first:
  assumes "rmatch r w = Some g" and "\<And>t. strict_suffix t w \<Longrightarrow> rmatch r t = None"
  shows "rmatch (Star k # r) w = Some g"
proof (cases w)
  case Nil
  then show ?thesis using assms(1) by simp
next
  case (Cons x xs)
  have "rmatch (Star k # r) xs = None"
  proof (rule star_none)
    fix t assume "suffix t xs"
    then have "strict_suffix t w" unfolding Cons strict_suffix_def
      using suffix_length_le [of t xs] by (auto simp: suffix_Cons)
    then show "rmatch r t = None" by (rule assms(2))
  qed
  then show ?thesis using assms(1) Cons by simp
qed

lemma star_dot_prefix:
  assumes "\<forall>c\<in>set pre. \<not> isLineTerminator c" and "rmatch (Star Dot # r) w = Some g"
  shows "rmatch (Star Dot # r) (pre @ w) = Some g"
  using assms by (induction pre) simp_all

lemma str_match_first: "rmatch re s = Some g \<Longrightarrow> str_match re s = Some g"
  by (cases s) simp_all

lemma str_match_None_suffix:
  "str_match re s = None \<Longrightarrow> suffix t s \<Longrightarrow> rmatch re t = None"
  by (induction s) (auto simp: suffix_Cons split: option.splits)

lemma decode_last_match:
  assumes "\<forall>c\<in>set pre. \<not> isLineTerminator c"
    and "rmatch (tail_re p) w = Some g"
    and "\<And>t. strict_suffix t w \<Longrightarrow> rmatch (tail_re p) t = None"
  shows "str_match (regexp p) (pre @ w) = Some g"
  unfolding regexp_tail
  by (intro str_match_first star_dot_prefix star_first assms)

lemma no_decode_suffix:
  assumes "str_match (regexp p) s = None" and "suffix t s"
  shows "rmatch (tail_re p) t = None"
proof -
  have "rmatch (Star Dot # tail_re p) t = None"
    using str_match_None_suffix [OF assms [unfolded regexp_tail]] .
  then show ?thesis using star_some [of "tail_re p" t _ Dot] by (cases "rmatch (tail_re p) t") auto
qed

lemma tail_re_needs_tag: "take 12 t \<noteq> tag \<Longrightarrow> rmatch (tail_re p) t = None"
  by (simp add: tail_re_match)

lemma sep_facts:
  "path_sep p \<noteq> 0x5F" "\<not> isLineTerminator (path_sep p)" "path_sep p \<notin> set tag"
  by (cases p; simp add: isLineTerminator_def tag_def js_def)+

lemma tag_overlap:
  assumes "strict_suffix t (tag @ z)"
  shows "suffix t z \<or> take 12 t \<noteq> tag"
  using assms unfolding strict_suffix_def tag_def js_def
  by (auto simp: suffix_Cons)

lemma takeWhile_stop:
  "\<forall>c\<in>set a. P c \<Longrightarrow> \<not> P x \<Longrightarrow> takeWhile P (a @ x # r) = a"
  by (simp add: takeWhile_append2)

lemma dropWhile_stop:
  "\<forall>c\<in>set a. P c \<Longrightarrow> \<not> P x \<Longrightarrow> dropWhile P (a @ x # r) = x # r"
  by (simp add: dropWhile_append2)

lemma dir_seg_no_tag:
  assumes a: "\<forall>c\<in>set a. c \<noteq> 0x5F \<and> c \<noteq> path_sep p"
  shows "take 12 (a @ path_sep p # r) \<noteq> tag"
proof
  let ?t = "a @ path_sep p # r"
  let ?Q = "\<lambda>c. c \<noteq> 0x5F \<and> c \<noteq> path_sep p"
  assume "take 12 ?t = tag"
  then obtain rest where t: "?t = tag @ rest" by (metis append_take_drop_id)
  have "takeWhile ?Q ?t = a" using a by (intro takeWhile_stop) auto
  moreover have "takeWhile ?Q (tag @ rest) = js ''vscode''"
    by (cases p) (simp_all add: tag_def js_def)
  ultimately have "a = js ''vscode''" using t by simp
  then have "js ''vscode'' @ path_sep p # r = tag @ rest" using t by simp
  then have "path_sep p = 0x5F" by (simp add: tag_def js_def)
  then show False using sep_facts(1) by simp
qed

lemma id_seg_no_tag:
  assumes b: "0x5F \<notin> set b" and j: "\<forall>c\<in>set junk. c \<noteq> 0x5F \<and> c \<noteq> path_sep p"
  shows "take 12 (b @ 0x5F # junk @ path_sep p # r) \<noteq> tag"
proof
  let ?t = "b @ 0x5F # junk @ path_sep p # r"
  let ?Q = "\<lambda>c. c \<noteq> 0x5F \<and> c \<noteq> path_sep p"
  assume "take 12 ?t = tag"
  then obtain rest where t: "?t = tag @ rest" by (metis append_take_drop_id)
  have "takeWhile (\<lambda>c. c \<noteq> 0x5F) ?t = b" using b by (intro takeWhile_stop) auto
  moreover have "takeWhile (\<lambda>c. c \<noteq> 0x5F) (tag @ rest) = js ''vscode''"
    by (simp add: tag_def js_def)
  ultimately have "b = js ''vscode''" using t by simp
  then have "js ''vscode'' @ 0x5F # junk @ path_sep p # r = tag @ rest" using t by simp
  then have u: "junk @ path_sep p # r = js ''gist_'' @ rest" by (simp add: tag_def js_def)
  have "takeWhile ?Q (junk @ path_sep p # r) = junk" using j by (intro takeWhile_stop) auto
  moreover have "takeWhile ?Q (js ''gist_'' @ rest) = js ''gist''"
    by (cases p) (simp_all add: js_def)
  ultimately have "junk = js ''gist''" using u by simp
  then have "path_sep p = 0x5F" using u by (simp add: js_def)
  then show False using sep_facts(1) by simp
qed

lemma working_dir_match:
  assumes b: "0x5F \<notin> set blockId" and j: "path_sep p \<notin> set junk"
  shows "rmatch (tail_re p) (tmpDirPrefix blockId @ junk @ path_sep p # name) =
           Some [blockId, takeWhile (\<lambda>c. \<not> isLineTerminator c) name]"
proof -
  have t: "take 12 (tmpDirPrefix blockId @ junk @ path_sep p # name) = tag"
    by (simp add: tmpDirPrefix_def length_tag)
  have d: "drop 12 (tmpDirPrefix blockId @ junk @ path_sep p # name) =
             blockId @ 0x5F # junk @ path_sep p # name"
    by (simp add: tmpDirPrefix_def length_tag)
  have d1: "dropWhile (\<lambda>c. c \<noteq> 0x5F) (blockId @ 0x5F # junk @ path_sep p # name) =
              0x5F # junk @ path_sep p # name"
    using b by (intro dropWhile_stop) auto
  have t1: "takeWhile (\<lambda>c. c \<noteq> 0x5F) (blockId @ 0x5F # junk @ path_sep p # name) = blockId"
    using b by (intro takeWhile_stop) auto
  have d2: "dropWhile (\<lambda>c. c \<noteq> path_sep p) (junk @ path_sep p # name) = path_sep p # name"
    using j by (intro dropWhile_stop) auto
  show ?thesis unfolding tail_re_match t d by (simp add: d1 t1 d2)
qed

lemma working_dir_decode:
  assumes b: "0x5F \<notin> set blockId"
    and j: "\<forall>c\<in>set junk. c \<noteq> 0x5F \<and> c \<noteq> path_sep p"
    and pre: "\<forall>c\<in>set pre. \<not> isLineTerminator c"
    and n: "str_match (regexp p) name = None"
  shows "str_match (regexp p) (pre @ tmpDirPrefix blockId @ junk @ path_sep p # name) =
           Some [blockId, takeWhile (\<lambda>c. \<not> isLineTerminator c) name]"
proof (rule decode_last_match [OF pre])
  show "rmatch (tail_re p) (tmpDirPrefix blockId @ junk @ path_sep p # name) =
          Some [blockId, takeWhile (\<lambda>c. \<not> isLineTerminator c) name]"
    using b j by (intro working_dir_match) auto
next
  fix t
  assume "strict_suffix t (tmpDirPrefix blockId @ junk @ path_sep p # name)"
  then have "strict_suffix t (tag @ (blockId @ 0x5F # junk @ path_sep p # name))"
    by (simp add: tmpDirPrefix_def)
  then have "suffix t (blockId @ 0x5F # junk @ path_sep p # name) \<or> take 12 t \<noteq> tag"
    by (rule tag_overlap)
  moreover have "take 12 t \<noteq> tag \<or> suffix t name"
    if s: "suffix t (blockId @ 0x5F # junk @ path_sep p # name)"
  proof -
    from s consider (inId) b' where "suffix b' blockId" "t = b' @ 0x5F # junk @ path_sep p # name"
      | (inDir) j' where "suffix j' junk" "t = j' @ path_sep p # name"
      | (inName) "suffix t name"
      by (auto simp: suffix_append suffix_Cons)
    then show ?thesis
    proof cases
      case inId
      have "0x5F \<notin> set b'" using b inId(1) by (auto dest: set_mono_suffix)
      then show ?thesis unfolding inId(2) using id_seg_no_tag [OF _ j] by blast
    next
      case inDir
      have "\<forall>c\<in>set j'. c \<noteq> 0x5F \<and> c \<noteq> path_sep p"
        using j inDir(1) by (auto dest: set_mono_suffix)
      then show ?thesis unfolding inDir(2) using dir_seg_no_tag by blast
    next
      case inName
      then show ?thesis by simp
    qed
  qed
  ultimately show "rmatch (tail_re p) t = None"
    using tail_re_needs_tag no_decode_suffix [OF n] by blast
qed

lemma decode_working_copy:
  assumes "0x5F \<notin> set blockId"
    and "0x5F \<notin> set junk" and "path_sep p \<notin> set junk"
    and "hasNoLineTerminator parent"
    and "hasNoLineTerminator name"
    and "getCodeFileDetails p (docAt name) = None"
  shows "getCodeFileDetails p (docAt (parent @ tmpDirPrefix blockId @ junk @ path_sep p # name))
           = Some \<lparr>storageBlockId = blockId, detailsFileName = name\<rparr>"
proof -
  have n: "str_match (regexp p) name = None"
    using assms(6) by (simp add: getCodeFileDetails_def docAt_def split: option.splits)
  have j: "\<forall>c\<in>set junk. c \<noteq> 0x5F \<and> c \<noteq> path_sep p"
    using assms(2,3) by auto
  have pre: "\<forall>c\<in>set parent. \<not> isLineTerminator c"
    using assms(4) by (simp add: hasNoLineTerminator_def)
  have "takeWhile (\<lambda>c. \<not> isLineTerminator c) name = name"
    using assms(5) by (simp add: hasNoLineTerminator_def)
  then show ?thesis
    using working_dir_decode [OF assms(1) j pre n]
    by (simp add: getCodeFileDetails_def docAt_def)
qed

section \<open>Facts about runs\<close>

lemma fst_andThen:
  "fst (andThen m f) = fst m @ (case snd m of Inl e \<Rightarrow> [] | Inr a \<Rightarrow> fst (f a))"
  by (cases m) (auto simp: andThen_def split: sum.splits prod.splits)

lemma snd_andThen:
  "snd (andThen m f) = (case snd m of Inl e \<Rightarrow> Inl e | Inr a \<Rightarrow> snd (f a))"
  by (cases m) (auto simp: andThen_def split: sum.splits prod.splits)

lemma fst_tryCatch:
  "fst (tryCatch m h) = fst m @ (case snd m of Inl e \<Rightarrow> fst (h e) | Inr a \<Rightarrow> [])"
  by (cases m) (auto simp: tryCatch_def split: sum.splits prod.splits)

lemma tryCatch_showError: "snd (tryCatch m (showError w)) = Inr ()"
  by (cases m) (auto simp: tryCatch_def showError_def Let_def split: sum.splits)

lemma commands_resolve:
  "snd (openCodeBlock w favorite) = Inr ()"
  "snd (createCodeBlock w) = Inr ()"
  "snd (openCodeBlockInBrowser w) = Inr ()"
  "snd (deleteCodeBlock w) = Inr ()"
  "snd (removeFileFromCodeBlock w) = Inr ()"
  "snd (addToCodeBlock w) = Inr ()"
  "snd (changeCodeBlockDescription w) = Inr ()"
  unfolding openCodeBlock_def createCodeBlock_def openCodeBlockInBrowser_def
    deleteCodeBlock_def removeFileFromCodeBlock_def addToCodeBlock_def
    changeCodeBlockDescription_def
  by (rule tryCatch_showError)+

lemma on_save_resolves:
  "getCodeFileDetails (hostPlatform w) doc \<noteq> None \<Longrightarrow> snd (onSaveTextDocument w doc) = Inr ()"
  by (auto simp: onSaveTextDocument_def tryCatch_showError)

lemma noList_simps [simp]:
  "noList []"
  "noList (e # es) = ((\<forall>f. e \<noteq> Provider (ListBlocks f)) \<and> noList es)"
  "noList (a @ b) = (noList a \<and> noList b)"
  by (auto simp: noList_def)

lemma noList_gated: "noList t \<Longrightarrow> listGated w a t"
proof (induction t arbitrary: a)
  case Nil
  then show ?case by simp
next
  case (Cons e es)
  then show ?case
  proof (cases e)
    case (Provider c)
    then show ?thesis using Cons by (cases c) auto
  qed auto
qed

lemma listGated_append: "listGated w a t \<Longrightarrow> noList t' \<Longrightarrow> listGated w a (t @ t')"
proof (induction t arbitrary: a)
  case Nil
  then show ?case by (simp add: noList_gated)
next
  case (Cons e es)
  then show ?case
  proof (cases e)
    case (Provider c)
    then show ?thesis using Cons by (cases c) auto
  qed auto
qed

lemma listGated_before:
  "listGated w a (pre @ Provider (ListBlocks f) # post) \<Longrightarrow>
     a \<or> (Provider IsAuthenticated \<in> set pre \<and> isAuthenticated w)
       \<or> (\<exists>u p. Provider (Login u p) \<in> set pre \<and> login w u p = Inr ())"
proof (induction pre arbitrary: a)
  case Nil
  then show ?case by simp
next
  case (Cons e es)
  show ?case
  proof (cases e)
    case (Provider c)
    show ?thesis
    proof (cases c)
      case IsAuthenticated
      then show ?thesis using Cons.IH [of "a \<or> isAuthenticated w"] Cons.prems Provider
        by auto
    next
      case (Login u p)
      then show ?thesis using Cons.IH [of "a \<or> login w u p = Inr ()"] Cons.prems Provider
        by auto
    next
      case (ListBlocks g)
      then show ?thesis using Cons.prems Provider by auto
    qed (use Cons.IH [of a] Cons.prems Provider in auto)
  qed (use Cons.IH [of a] Cons.prems in auto)
qed

lemma loginUser_shape:
  "(isAuthenticated w \<and> loginUser w = ([Provider IsAuthenticated], Inr ()))
   \<or> (\<not> isAuthenticated w \<and>
       ((\<exists>t e. loginUser w = (t, Inl e) \<and> noList t)
        \<or> (\<exists>t u p. loginUser w = (t @ [Provider (Login u p)], Inr ()) \<and> noList t
              \<and> login w u p = Inr ())))"
proof (cases "isAuthenticated w")
  case True
  then show ?thesis by (simp add: loginUser_def run_defs)
next
  case False
  let ?u = "showInputBox w (js ''Enter your '' @ providerName w @ js '' username'') None"
  let ?p = "showInputBox w (js ''Enter your '' @ providerName w @ js '' password.'') None"
  show ?thesis
  proof (cases ?u)
    case None
    then show ?thesis using False by (simp add: loginUser_def run_defs)
  next
    case u: (Some u')
    show ?thesis
    proof (cases ?p)
      case None
      then show ?thesis using False u by (simp add: loginUser_def run_defs)
    next
      case p: (Some p')
      show ?thesis
      proof (cases "login w (trim u') (trim p')")
        case (Inl e)
        then show ?thesis using False u p by (simp add: loginUser_def run_defs)
      next
        case (Inr x)
        have "loginUser w =
            ([Provider IsAuthenticated,
              ShowInputBox (js ''Enter your '' @ providerName w @ js '' username'') None,
              ShowInputBox (js ''Enter your '' @ providerName w @ js '' password.'') None]
             @ [Provider (Login (trim u') (trim p'))], Inr ())"
          using False u p Inr by (simp add: loginUser_def run_defs)
        then show ?thesis using False Inr by (intro disjI2 conjI) auto
      qed
    qed
  qed
qed

lemma selectCodeBlock_gated: "listGated w False (fst (selectCodeBlock w favorite))"
proof -
  let ?rest = "\<lambda>u::unit.
     andThen (await (Provider (ListBlocks favorite)) (listBlocks w favorite)) (\<lambda>fs.
     andThen (await (ShowQuickPick fs) (Inr (showQuickPick w fs))) (\<lambda>selectedFile.
     case selectedFile of
       None \<Rightarrow> ret None
     | Some sel \<Rightarrow>
         andThen (await (Provider (GetStorageBlock (url sel))) (getStorageBlock w (url sel)))
           (\<lambda>b. ret (Some b))))"
  have s: "selectCodeBlock w favorite = andThen (loginUser w) ?rest"
    by (simp add: selectCodeBlock_def)
  have r: "\<exists>t. fst (?rest ()) = Provider (ListBlocks favorite) # t \<and> noList t"
    by (auto simp: fst_andThen await_def ret_def split: sum.splits option.splits)
  then obtain t where t: "fst (?rest ()) = Provider (ListBlocks favorite) # t" "noList t"
    by blast
  from loginUser_shape [of w] show ?thesis
  proof (elim disjE conjE exE)
    assume "isAuthenticated w" "loginUser w = ([Provider IsAuthenticated], Inr ())"
    then show ?thesis unfolding s using t by (simp add: fst_andThen noList_gated)
  next
    fix tl e
    assume "loginUser w = (tl, Inl e)" "noList tl"
    then show ?thesis unfolding s by (simp add: fst_andThen noList_gated)
  next
    fix tl u p
    assume l: "loginUser w = (tl @ [Provider (Login u p)], Inr ())" "noList tl"
      "login w u p = Inr ()"
    have "listGated w a (tl @ Provider (Login u p) # Provider (ListBlocks favorite) # t)" for a
      using l(2)
    proof (induction tl arbitrary: a)
      case Nil
      then show ?case using l(3) t(2) by (simp add: noList_gated)
    next
      case (Cons e es)
      then show ?case
      proof (cases e)
        case (Provider c)
        then show ?thesis using Cons by (cases c) auto
      qed auto
    qed
    then show ?thesis unfolding s using l(1) t(1) by (simp add: fst_andThen)
  qed
qed

lemma noList_openFiles: "noList (fst (openFiles w dir fs i))"
  by (induction fs arbitrary: i)
     (auto simp: fst_andThen openTextDocumentIn_def Let_def await_def ret_def
           split: sum.splits)

lemma noList_showError: "noList (fst (showError w e))"
  by (simp add: showError_def Let_def)

lemma openCodeBlock_gated: "listGated w False (fst (openCodeBlock w favorite))"
proof -
  have "\<exists>t. fst (openCodeBlock w favorite) = fst (selectCodeBlock w favorite) @ t \<and> noList t"
    unfolding openCodeBlock_def fst_tryCatch fst_andThen
    by (auto simp: noList_showError noList_openFiles createTmpDir_def fst_andThen await_def
          ret_def split: sum.splits option.splits)
  then show ?thesis using selectCodeBlock_gated listGated_append by metis
qed

lemma addToCodeBlock_gated: "listGated w False (fst (addToCodeBlock w))"
proof (cases "activeTextEditor w")
  case None
  then show ?thesis by (simp add: addToCodeBlock_def run_defs)
next
  case (Some editor)
  have "\<exists>t. fst (addToCodeBlock w) = fst (selectCodeBlock w False) @ t \<and> noList t"
    unfolding addToCodeBlock_def fst_tryCatch fst_andThen Some
    by (auto simp: noList_showError notify_def emit_def fst_andThen await_def
          ret_def throw_def Let_def split: sum.splits option.splits)
  then show ?thesis using selectCodeBlock_gated listGated_append by metis
qed

lemma shownPaths_append: "shownPaths (a @ b) = shownPaths a @ shownPaths b"
  by (induction a rule: shownPaths.induct) auto

lemma errorsShown_append: "errorsShown (a @ b) = errorsShown a @ errorsShown b"
  by (induction a rule: errorsShown.induct) auto

lemma shownPaths_loginUser: "shownPaths (fst (loginUser w)) = []"
  by (auto simp: loginUser_def fst_andThen shownPaths_append await_def prompt_def ret_def
        throw_def split: sum.splits option.splits)

lemma shownPaths_selectCodeBlock: "shownPaths (fst (selectCodeBlock w favorite)) = []"
  by (auto simp: selectCodeBlock_def fst_andThen shownPaths_append shownPaths_loginUser
        await_def ret_def split: sum.splits option.splits)

lemma shownPaths_openEvents:
  "shownPaths (openEvents w dir fs i) = map (\<lambda>(name, content). path_join w dir name) fs"
  by (induction fs arbitrary: i) (auto simp: shownPaths_append)

lemma tryCatch_no_error:
  assumes "errorsShown (fst (tryCatch m (showError w))) = []"
  shows "snd m = Inr () \<and> fst (tryCatch m (showError w)) = fst m"
proof (cases "snd m")
  case (Inl e)
  then have "errorsShown (fst (tryCatch m (showError w))) \<noteq> []"
    by (simp add: fst_tryCatch errorsShown_append showError_def Let_def)
  then show ?thesis using assms by simp
next
  case (Inr u)
  then show ?thesis by (simp add: fst_tryCatch)
qed

lemma openTextDocumentIn_ok:
  assumes "snd (openTextDocumentIn w dir name content) = Inr u"
  shows "fst (openTextDocumentIn w dir name content) =
           [WriteFileSync (path_join w dir name) content,
            OpenTextDocument (path_join w dir name),
            ShowTextDocument (path_join w dir name)]"
  using assms
  by (auto simp: openTextDocumentIn_def Let_def fst_andThen snd_andThen await_def
        split: sum.splits)

lemma openFiles_ok:
  "snd (openFiles w dir fs i) = Inr u \<Longrightarrow> fst (openFiles w dir fs i) = openEvents w dir fs i"
proof (induction fs arbitrary: i)
  case Nil
  then show ?case by (simp add: ret_def)
next
  case (Cons f rest)
  obtain name content where f: "f = (name, content)" by (cases f)
  let ?split = "if i + 1 > 1
        then andThen
               (await (ExecuteCommand (js ''workbench.action.focusFirstEditorGroup''))
                  (executeCommand w (js ''workbench.action.focusFirstEditorGroup''))) (\<lambda>_.
             await (ExecuteCommand (js ''workbench.action.splitEditor''))
               (executeCommand w (js ''workbench.action.splitEditor'')))
        else ret ()"
  from Cons.prems obtain a b where
    s1: "snd ?split = Inr a"
    and s2: "snd (openTextDocumentIn w dir name content) = Inr b"
    and s3: "snd (openFiles w dir rest (i + 1)) = Inr u"
    unfolding f by (auto simp: snd_andThen split: sum.splits)
  have e1: "fst ?split =
      (if i = 0 then []
       else [ExecuteCommand (js ''workbench.action.focusFirstEditorGroup''),
             ExecuteCommand (js ''workbench.action.splitEditor'')])"
    using s1
    by (cases "i = 0";
        cases "executeCommand w (js ''workbench.action.focusFirstEditorGroup'')")
       (auto simp: fst_andThen snd_andThen await_def ret_def)
  show ?case
    unfolding f openFiles.simps openEvents.simps fst_andThen s1 s2
    using e1 openTextDocumentIn_ok [OF s2] Cons.IH [OF s3] by simp
qed

section \<open>Facts about the collision loop\<close>

lemma numbered_free_exists:
  "\<exists>j\<ge>i. \<not> hasFile fs (numberedName orig j)"
proof -
  have "finite {j. hasFile fs (numberedName orig j)}"
    using finite_numbered [of orig "map fst fs"] by (simp add: hasFile_def)
  then obtain b where b: "\<forall>j\<in>{j. hasFile fs (numberedName orig j)}. j \<le> b"
    using finite_nat_set_iff_bounded_le by blast
  have "\<not> hasFile fs (numberedName orig (Suc (max i b)))"
    using b by auto
  then show ?thesis by (intro exI [of _ "Suc (max i b)"]) auto
qed

lemma collisionLoop_throws:
  "hasFile fs (js ''hasOwnProperty'') \<Longrightarrow> collisionLoop fs orig name i = Inl TypeError"
  by (simp add: collisionLoop.simps [of fs orig name i] hasOwnProperty_def)

lemma collisionLoop_spec:
  assumes "\<not> hasFile fs (js ''hasOwnProperty'')"
  shows "collisionLoop fs orig name i =
     Inr (if hasFile fs name
          then numberedName orig (LEAST j. i \<le> j \<and> \<not> hasFile fs (numberedName orig j))
          else name)"
  using assms
proof (induction fs orig name i rule: collisionLoop.induct)
  case (1 fs orig name i)
  note n = "1.prems"
  have t: "hasOwnProperty fs name = Inr (hasFile fs name)"
    using n by (simp add: hasOwnProperty_def)
  show ?case
  proof (cases "hasFile fs name")
    case False
    then show ?thesis by (simp add: collisionLoop.simps [of fs orig name i] t)
  next
    case True
    have IH: "collisionLoop fs orig (numberedName orig i) (i + 1) =
      Inr (if hasFile fs (numberedName orig i)
           then numberedName orig
                  (LEAST j. i + 1 \<le> j \<and> \<not> hasFile fs (numberedName orig j))
           else numberedName orig i)"
      using "1.IH" [OF t True n] .
    show ?thesis
    proof (cases "hasFile fs (numberedName orig i)")
      case taken: True
      have "(\<lambda>j. i \<le> j \<and> \<not> hasFile fs (numberedName orig j)) =
            (\<lambda>j. i + 1 \<le> j \<and> \<not> hasFile fs (numberedName orig j))"
        using taken by (auto simp: fun_eq_iff Suc_le_eq) (metis le_neq_implies_less)
      then show ?thesis using True taken IH
        by (simp add: collisionLoop.simps [of fs orig name i] t)
    next
      case free: False
      have "(LEAST j. i \<le> j \<and> \<not> hasFile fs (numberedName orig j)) = i"
        using free by (intro Least_equality) auto
      then show ?thesis using True free IH
        by (simp add: collisionLoop.simps [of fs orig name i] t)
    qed
  qed
qed

lemma collisionLoop_free:
  assumes "collisionLoop fs orig name i = Inr r"
  shows "\<not> hasFile fs r"
proof -
  have n: "\<not> hasFile fs (js ''hasOwnProperty'')"
    using assms collisionLoop_throws [of fs orig name i] by auto
  show ?thesis
  proof (cases "hasFile fs name")
    case False
    then show ?thesis using assms by (simp add: collisionLoop_spec [OF n])
  next
    case True
    obtain j where "i \<le> j \<and> \<not> hasFile fs (numberedName orig j)"
      using numbered_free_exists by blast
    then have "i \<le> (LEAST j. i \<le> j \<and> \<not> hasFile fs (numberedName orig j))
        \<and> \<not> hasFile fs (numberedName orig
              (LEAST j. i \<le> j \<and> \<not> hasFile fs (numberedName orig j)))"
      by (rule LeastI)
    then show ?thesis using True assms by (auto simp: collisionLoop_spec [OF n])
  qed
qed

lemma lastIndexOf_dot:
  assumes "0x2E \<notin> set ext"
  shows "lastIndexOf (base @ 0x2E # ext) 0x2E = int (length base)"
proof -
  have "takeWhile (\<lambda>x. x \<noteq> 0x2E) (rev ext @ 0x2E # rev base) = rev ext"
    using assms by (intro takeWhile_stop) auto
  then show ?thesis by (simp add: lastIndexOf_def)
qed

lemma numberedName_ext:
  "0x2E \<notin> set ext \<Longrightarrow>
     numberedName (base @ 0x2E # ext) i = base @ numberToString i @ 0x2E # ext"
  by (simp add: numberedName_def extPosOf_def lastIndexOf_dot Let_def)

lemma numberedName_no_ext:
  "0x2E \<notin> set name \<Longrightarrow> numberedName name i = name @ numberToString i"
  by (simp add: numberedName_def extPosOf_def lastIndexOf_def Let_def)

lemma numberToString_digit: "i < 10 \<Longrightarrow> numberToString i = [0x30 + of_nat i]"
  by (simp add: numberToString.simps [of i])

section \<open>C1: round trip of the Identity Codec\<close>

text \<open>
  C1 as stated lets the junk after the prefix be anything without a separator
  and the file name be anything that does not match the pattern.  It fails
  twice.  The leading \<open>.*\<close> is greedy, so the last \<open>vscode_gist_\<close> of the path
  that is followed by an id, an underscore and a separator wins: with the
  junk \<open>vscode_gist_q_r\<close> after the prefix of block \<open>abc\<close>, the decoded id is
  \<open>q\<close>.  And the final \<open>(.*)\<close> stops at a line terminator: the file name
  \<open>a\<close>, line feed, \<open>b\<close> is decoded as \<open>a\<close>.
\<close>

theorem round_trip_counterexample:
  "0x5F \<notin> set (js ''abc'')
   \<and> path_sep Posix \<notin> set (js ''vscode_gist_q_r'')
   \<and> getCodeFileDetails Posix (docAt (js ''a.txt'')) = None
   \<and> getCodeFileDetails Posix
         (docAt (tmpDirPrefix (js ''abc'') @ js ''vscode_gist_q_r'' @ path_sep Posix # js ''a.txt''))
       = Some \<lparr>storageBlockId = js ''q'', detailsFileName = js ''a.txt''\<rparr>
   \<and> getCodeFileDetails Posix
         (docAt (tmpDirPrefix (js ''abc'') @ js ''vscode_gist_q_r'' @ path_sep Posix # js ''a.txt''))
       \<noteq> Some \<lparr>storageBlockId = js ''abc'', detailsFileName = js ''a.txt''\<rparr>
   \<and> path_sep Posix \<notin> set (js ''4711xYz'')
   \<and> getCodeFileDetails Posix (docAt (js ''a'' @ 0x0A # js ''b'')) = None
   \<and> getCodeFileDetails Posix
         (docAt (tmpDirPrefix (js ''abc'') @ js ''4711xYz'' @ path_sep Posix
                  # js ''a'' @ 0x0A # js ''b''))
       = Some \<lparr>storageBlockId = js ''abc'', detailsFileName = js ''a''\<rparr>
   \<and> getCodeFileDetails Posix
         (docAt (tmpDirPrefix (js ''abc'') @ js ''4711xYz'' @ path_sep Posix
                  # js ''a'' @ 0x0A # js ''b''))
       \<noteq> Some \<lparr>storageBlockId = js ''abc'', detailsFileName = js ''a'' @ 0x0A # js ''b''\<rparr>"
  by (simp add: getCodeFileDetails_def docAt_def regexp_def tmpDirPrefix_def tag_def js_def
      isLineTerminator_def)

text \<open>
  C1, amended: let \<open>blockId\<close> contain no underscore, let the junk after the
  prefix contain neither a separator nor an underscore, and let \<open>fileName\<close>
  contain no line terminator and not match the pattern itself.  Then the path
  \<open>tmpDirPrefix blockId + junk + sep + fileName\<close>, under any parent directory
  without a line terminator, decodes to exactly
  \<open>{storageBlockId = blockId, fileName = fileName}\<close>, on both platforms.
\<close>

theorem identity_codec_round_trip:
  assumes "0x5F \<notin> set blockId"
    and "0x5F \<notin> set junk" and "path_sep p \<notin> set junk"
    and "hasNoLineTerminator parent"
    and "hasNoLineTerminator name"
    and "getCodeFileDetails p (docAt name) = None"
    and "fileName doc = parent @ tmpDirPrefix blockId @ junk @ path_sep p # name"
  shows "getCodeFileDetails p doc = Some \<lparr>storageBlockId = blockId, detailsFileName = name\<rparr>"
proof -
  have n: "str_match (regexp p) name = None"
    using assms(6) by (simp add: getCodeFileDetails_def docAt_def split: option.splits)
  have j: "\<forall>c\<in>set junk. c \<noteq> 0x5F \<and> c \<noteq> path_sep p"
    using assms(2,3) by auto
  have pre: "\<forall>c\<in>set parent. \<not> isLineTerminator c"
    using assms(4) by (simp add: hasNoLineTerminator_def)
  have "takeWhile (\<lambda>c. \<not> isLineTerminator c) name = name"
    using assms(5) by (simp add: hasNoLineTerminator_def)
  then have "str_match (regexp p) (fileName doc) = Some [blockId, name]"
    using working_dir_decode [OF assms(1) j pre n] assms(7) by simp
  then show ?thesis by (simp add: getCodeFileDetails_def)
qed

theorem identity_codec_round_trip_witness:
  "0x5F \<notin> set (js ''abc123'')
   \<and> 0x5F \<notin> set (js ''4711xYz'') \<and> path_sep Posix \<notin> set (js ''4711xYz'')
   \<and> hasNoLineTerminator (js ''/tmp/'')
   \<and> hasNoLineTerminator (js ''a.txt'')
   \<and> getCodeFileDetails Posix (docAt (js ''a.txt'')) = None
   \<and> getCodeFileDetails Posix
         (docAt (js ''/tmp/'' @ tmpDirPrefix (js ''abc123'') @ js ''4711xYz''
                  @ path_sep Posix # js ''a.txt''))
       = Some \<lparr>storageBlockId = js ''abc123'', detailsFileName = js ''a.txt''\<rparr>"
proof -
  have h1: "0x5F \<notin> set (js ''abc123'')" by (simp add: js_def)
  have h2: "0x5F \<notin> set (js ''4711xYz'')" by (simp add: js_def)
  have h3: "path_sep Posix \<notin> set (js ''4711xYz'')" by (simp add: js_def)
  have h4: "hasNoLineTerminator (js ''/tmp/'')"
    by (simp add: hasNoLineTerminator_def js_def isLineTerminator_def)
  have h5: "hasNoLineTerminator (js ''a.txt'')"
    by (simp add: hasNoLineTerminator_def js_def isLineTerminator_def)
  have h6: "getCodeFileDetails Posix (docAt (js ''a.txt'')) = None"
    by (simp add: getCodeFileDetails_def docAt_def regexp_def tag_def js_def
        isLineTerminator_def)
  have h7: "fileName (docAt (js ''/tmp/'' @ tmpDirPrefix (js ''abc123'') @ js ''4711xYz''
                  @ path_sep Posix # js ''a.txt''))
            = js ''/tmp/'' @ tmpDirPrefix (js ''abc123'') @ js ''4711xYz''
                  @ path_sep Posix # js ''a.txt''"
    by (simp add: docAt_def)
  show ?thesis
    using h1 h2 h3 h4 h5 h6 identity_codec_round_trip [OF h1 h2 h3 h4 h5 h6 h7]
    by blast
qed

section \<open>C2: saving a document that is not a working copy\<close>

text \<open>
  C2 says that saving a document whose path does not decode is a no-op that
  raises no error.  The source destructures the result of
  \<open>_getCodeFileDetails\<close> before its \<open>try\<close>, so on such a document
  \<open>onSaveTextDocument\<close> rejects with a \<open>TypeError\<close>.  No provider call is made,
  and nothing is shown to the user: here for \<open>/home/u/notes.txt\<close>.
\<close>

theorem on_save_foreign_document_rejects:
  "getCodeFileDetails Posix (docAt (js ''/home/u/notes.txt'')) = None
   \<and> onSaveTextDocument env0 (docAt (js ''/home/u/notes.txt'')) = ([], Inl TypeError)"
  by (simp add: onSaveTextDocument_def env0_def run_defs codec_defs)

text \<open>So it is for every document that does not decode.\<close>

lemma on_save_undecodable:
  "getCodeFileDetails (hostPlatform w) doc = None \<Longrightarrow>
     onSaveTextDocument w doc = ([], Inl TypeError)"
  by (simp add: onSaveTextDocument_def throw_def)

section \<open>C3: errors caught at the top level of every command\<close>

text \<open>
  C3 says that no command lets an error escape to the host.  Seven commands
  are one \<open>try\<close> block whose handler is \<open>_showError\<close>; \<open>onSaveTextDocument\<close> is
  not (see C2): the error of its first statement escapes, and the
  error-notification path is not taken.  Here for the document \<open>/etc/hosts\<close>.
\<close>

theorem on_save_error_escapes:
  "snd (onSaveTextDocument env0 (docAt (js ''/etc/hosts''))) = Inl TypeError
   \<and> fst (onSaveTextDocument env0 (docAt (js ''/etc/hosts''))) = []"
  by (simp add: onSaveTextDocument_def env0_def run_defs codec_defs)

section \<open>C4: collision resolution in \<open>addToCodeBlock\<close>\<close>

text \<open>
  C4 says that a candidate name that is not a key of the block's file mapping
  is persisted unchanged.  The source tests the name with
  \<open>codeBlock.files.hasOwnProperty(fileName)\<close>.  For a block that has a file
  named \<open>hasOwnProperty\<close> this call raises a \<open>TypeError\<close>: adding \<open>a.txt\<close>, which
  is not a file of the block, ends with the error notification, and the
  provider's \<open>editFile\<close> is not called.
\<close>

theorem add_to_block_with_shadowed_method:
  "\<not> hasFile (files blockH) (js ''a.txt'')
   \<and> addToCodeBlock envShadow =
       ([Provider IsAuthenticated, Provider (ListBlocks False), ShowQuickPick [blockH],
         Provider (GetStorageBlock (js ''https://api/def456'')),
         ConsoleError TypeError,
         ShowErrorMessage
           (js ''GIST ERROR: codeBlock.files.hasOwnProperty is not a function [gist]'')],
        Inr ())"
  by (simp add: addToCodeBlock_def selectCodeBlock_def loginUser_def envShadow_def envAdd_def
      env0_def run_defs editorOf_def editorFileName_def getFileNameFromPath_def
      editorText_def isEmpty_def blockH_def collisionLoop.simps hasOwnProperty_def
      hasFile_def js_def Let_def)

text \<open>
  For every block without a file of that name the loop does what C4 says:
  when an editor is focused and the user has picked the block, the name under
  which \<open>addToCodeBlock\<close> calls the provider's \<open>editFile\<close> is the candidate name
  itself if the block has no file of that name, and otherwise \<open>numberedName\<close>
  of the candidate and the smallest \<open>i \<ge> 1\<close> whose numbered name is not a file
  of the block; in both cases it is not a file of the block, so no file of
  the block is overwritten.  \<open>numberedName\<close> puts the decimal text of \<open>i\<close>
  before the last \<open>.\<close> of the name and what follows it, or at the end of a name
  without \<open>.\<close>.
\<close>

theorem collision_resolution:
  assumes "activeTextEditor w = Some editor"
    and "selectCodeBlock w False = (t0, Inr (Some codeBlock))"
    and "\<not> hasFile (files codeBlock) (js ''hasOwnProperty'')"
  shows "\<exists>persisted rest.
           fst (addToCodeBlock w) =
             t0 @ Provider (EditFile (block_id codeBlock) persisted (editorText editor)) # rest
         \<and> persisted =
             (if hasFile (files codeBlock) (editorFileName w editor)
              then numberedName (editorFileName w editor)
                     (LEAST i. 1 \<le> i \<and>
                        \<not> hasFile (files codeBlock)
                            (numberedName (editorFileName w editor) i))
              else editorFileName w editor)
         \<and> \<not> hasFile (files codeBlock) persisted
         \<and> (\<forall>base ext i. 0x2E \<notin> set ext \<longrightarrow>
               numberedName (base @ 0x2E # ext) i = base @ numberToString i @ 0x2E # ext)
         \<and> (\<forall>name i. 0x2E \<notin> set name \<longrightarrow> numberedName name i = name @ numberToString i)
         \<and> numberToString 1 = js ''1'' \<and> numberToString 2 = js ''2''"
proof -
  let ?name = "editorFileName w editor"
  obtain p where p: "collisionLoop (files codeBlock) ?name ?name 1 = Inr p"
    using collisionLoop_spec [OF assms(3)] by blast
  have "\<exists>rest. fst (addToCodeBlock w) =
          t0 @ Provider (EditFile (block_id codeBlock) p (editorText editor)) # rest"
    using assms(1,2) p
    by (cases "editFile w (block_id codeBlock) p (editorText editor)")
       (simp_all add: addToCodeBlock_def run_defs)
  moreover have "numberToString 1 = js ''1''" "numberToString 2 = js ''2''"
    by (simp_all add: numberToString_digit js_def)
  ultimately show ?thesis
    using collisionLoop_spec [OF assms(3), of ?name ?name 1] p
      collisionLoop_free [OF p]
      numberedName_ext numberedName_no_ext
    by auto
qed

text \<open>
  The examples of the claim: the editor of \<open>/home/u/a.txt\<close> and the block with
  the files \<open>a.txt\<close> and \<open>a1.txt\<close>, and the editor of \<open>/home/u/readme\<close> and the
  block with the file \<open>readme\<close>.
\<close>

lemma add_a_txt:
  "fst (addToCodeBlock (envAdd blockA (js ''/home/u/a.txt''))) =
     [Provider IsAuthenticated, Provider (ListBlocks False), ShowQuickPick [blockA],
      Provider (GetStorageBlock (js ''https://api/abc123'')),
      Provider (EditFile (js ''abc123'') (js ''a2.txt'') (js ''text'')),
      ShowInformationMessage (js ''GIST MESSAGE: File Added To Block [gist]'')]"
  by (simp add: addToCodeBlock_def selectCodeBlock_def loginUser_def envAdd_def env0_def
      run_defs editorOf_def editorFileName_def getFileNameFromPath_def editorText_def
      isEmpty_def blockA_def collisionLoop.simps hasOwnProperty_def hasFile_def
      numberedName_def extPosOf_def lastIndexOf_def numberToString.simps js_def Let_def)

lemma add_readme:
  "fst (addToCodeBlock (envAdd blockR (js ''/home/u/readme''))) =
     [Provider IsAuthenticated, Provider (ListBlocks False), ShowQuickPick [blockR],
      Provider (GetStorageBlock (js ''https://api/xyz789'')),
      Provider (EditFile (js ''xyz789'') (js ''readme1'') (js ''text'')),
      ShowInformationMessage (js ''GIST MESSAGE: File Added To Block [gist]'')]"
  by (simp add: addToCodeBlock_def selectCodeBlock_def loginUser_def envAdd_def env0_def
      run_defs editorOf_def editorFileName_def getFileNameFromPath_def editorText_def
      isEmpty_def blockR_def collisionLoop.simps hasOwnProperty_def hasFile_def
      numberedName_def extPosOf_def lastIndexOf_def numberToString.simps js_def Let_def)

theorem collision_resolution_witness:
  "activeTextEditor (envAdd blockA (js ''/home/u/a.txt''))
     = Some (editorOf (js ''/home/u/a.txt'') (js ''text''))
   \<and> selectCodeBlock (envAdd blockA (js ''/home/u/a.txt'')) False
     = ([Provider IsAuthenticated, Provider (ListBlocks False), ShowQuickPick [blockA],
         Provider (GetStorageBlock (js ''https://api/abc123''))], Inr (Some blockA))
   \<and> \<not> hasFile (files blockA) (js ''hasOwnProperty'')
   \<and> hasFile (files blockA) (js ''a.txt'')
   \<and> numberedName (js ''a.txt'')
        (LEAST i. 1 \<le> i \<and> \<not> hasFile (files blockA) (numberedName (js ''a.txt'') i))
     = js ''a2.txt''"
proof -
  let ?w = "envAdd blockA (js ''/home/u/a.txt'')"
  let ?ed = "editorOf (js ''/home/u/a.txt'') (js ''text'')"
  let ?t0 = "[Provider IsAuthenticated, Provider (ListBlocks False), ShowQuickPick [blockA],
              Provider (GetStorageBlock (js ''https://api/abc123''))]"
  have h1: "activeTextEditor ?w = Some ?ed" by (simp add: envAdd_def)
  have h2: "selectCodeBlock ?w False = (?t0, Inr (Some blockA))"
    by (simp add: selectCodeBlock_def loginUser_def envAdd_def env0_def run_defs blockA_def
        js_def)
  have h3: "\<not> hasFile (files blockA) (js ''hasOwnProperty'')"
    by (simp add: hasFile_def blockA_def js_def)
  have n: "editorFileName ?w ?ed = js ''a.txt''"
    by (simp add: editorFileName_def getFileNameFromPath_def envAdd_def env0_def
        editorOf_def js_def)
  have k: "hasFile (files blockA) (js ''a.txt'')"
    by (simp add: hasFile_def blockA_def)
  obtain persisted rest where
    t: "fst (addToCodeBlock ?w) =
          ?t0 @ Provider (EditFile (block_id blockA) persisted (editorText ?ed)) # rest"
    and p: "persisted = numberedName (js ''a.txt'')
        (LEAST i. 1 \<le> i \<and> \<not> hasFile (files blockA) (numberedName (js ''a.txt'') i))"
    using collision_resolution [OF h1 h2 h3] unfolding n using k by auto
  have "persisted = js ''a2.txt''" using t unfolding add_a_txt by simp
  then show ?thesis using h1 h2 h3 k p by simp
qed

section \<open>C5: the delete sweep\<close>

text \<open>
  C5 says that exactly the visible editors of the deleted block are closed.
  The source sends \<open>workbench.action.closeActiveEditor\<close> once for every visible
  editor of the block, and never gives the focus to that editor.  With the
  editors of \<open>a.txt\<close> and \<open>b.txt\<close> of block \<open>abc123\<close> and of \<open>c.txt\<close> of block
  \<open>xyz789\<close> visible, \<open>a.txt\<close> focused and \<open>c.txt\<close> the editor used before it,
  the two commands close \<open>a.txt\<close> and \<open>c.txt\<close>; \<open>b.txt\<close> of the deleted block
  stays open.
\<close>

theorem delete_sweep_closes_active_editor:
  "fst (deleteCodeBlock envDelete) =
     [Provider (DeleteStorageBlock (js ''abc123'')),
      ExecuteCommand (js ''workbench.action.closeActiveEditor''),
      ExecuteCommand (js ''workbench.action.closeActiveEditor''),
      ShowInformationMessage (js ''GIST MESSAGE: Block Deleted [gist]'')]
   \<and> map (\<lambda>e. fileName (document e))
        (hostAfter (fst (deleteCodeBlock envDelete)) [editorA, editorX, editorB])
     = [js ''/tmp/vscode_gist_abc123_4711xYz/b.txt'']"
  by (simp add: deleteCodeBlock_def getCurrentDocument_def envDelete_def env0_def run_defs
      editorA_def editorB_def editorX_def editorOf_def getCodeFileDetails_def regexp_def
      tag_def js_def isLineTerminator_def)

text \<open>
  The number of commands is the number of visible editors of the block,
  whichever editors these are.
\<close>

lemma closeEditors_count:
  "closeEditors w details eds =
     (replicate
        (length (filter (\<lambda>e. \<exists>d. getCodeFileDetails (hostPlatform w) (document e) = Some d
                             \<and> storageBlockId d = storageBlockId details) eds))
        (ExecuteCommand (js ''workbench.action.closeActiveEditor'')),
      Inr ())"
  by (induction eds) (auto simp: ret_def emit_def andThen_def split: option.splits)

section \<open>C6: the editors \<open>openCodeBlock\<close> opens\<close>

text \<open>
  C6 as stated holds for no block whose id contains an underscore: the
  editors are opened, but their paths decode to the part of the id before its
  first underscore.  Here the block \<open>a_b\<close> with the one file \<open>f.txt\<close>.
\<close>

theorem open_block_counterexample:
  "selectCodeBlock (envOpen blockU) False =
     ([Provider IsAuthenticated, Provider (ListBlocks False), ShowQuickPick [blockU],
       Provider (GetStorageBlock (js ''https://api/a_b''))], Inr (Some blockU))
   \<and> errorsShown (fst (openCodeBlock (envOpen blockU) False)) = []
   \<and> shownPaths (fst (openCodeBlock (envOpen blockU) False)) =
       [js ''/tmp/vscode_gist_a_b_4711xYz/f.txt'']
   \<and> getCodeFileDetails Posix (docAt (js ''/tmp/vscode_gist_a_b_4711xYz/f.txt'')) =
       Some \<lparr>storageBlockId = js ''a'', detailsFileName = js ''f.txt''\<rparr>
   \<and> getCodeFileDetails Posix (docAt (js ''/tmp/vscode_gist_a_b_4711xYz/f.txt'')) \<noteq>
       Some \<lparr>storageBlockId = block_id blockU, detailsFileName = js ''f.txt''\<rparr>"
  by (simp add: open_run_defs blockU_def codec_defs)

text \<open>
  C6, amended: let the user pick a block whose id has no underscore and whose
  file names have no line terminator, do not match the pattern themselves and
  are joined to the directory by one separator; let \<open>tmp.dirSync\<close> return a
  directory \<open>parent + prefix + junk\<close> with no line terminator in \<open>parent\<close> and
  neither underscore nor separator in \<open>junk\<close>; and let the run show no error.
  Then \<open>openCodeBlock\<close> allocates that one directory and, for the files in
  the order of the block's file mapping, writes each content to its path in
  the directory and opens and shows that path, the first in the current view
  and each later one after a split of the first editor group; it opens one
  editor for each file, and the path of that editor decodes to the block's
  id and the file's name.
\<close>

theorem open_block_editors:
  assumes "selectCodeBlock w favorite = (t0, Inr (Some codeBlock))"
    and "errorsShown (fst (openCodeBlock w favorite)) = []"
    and "dirSync w (tmpDirPrefix (block_id codeBlock)) = Inr dir"
    and "dir = parent @ tmpDirPrefix (block_id codeBlock) @ junk"
    and "hasNoLineTerminator parent"
    and "0x5F \<notin> set junk" and "path_sep (hostPlatform w) \<notin> set junk"
    and "0x5F \<notin> set (block_id codeBlock)"
    and "\<forall>(name, content)\<in>set (files codeBlock).
           hasNoLineTerminator name
           \<and> getCodeFileDetails (hostPlatform w) (docAt name) = None
           \<and> path_join w dir name = dir @ path_sep (hostPlatform w) # name"
  shows "fst (openCodeBlock w favorite) =
           t0 @ DirSync (tmpDirPrefix (block_id codeBlock))
              # (if activeTextEditor w \<noteq> None
                 then [ExecuteCommand (js ''workbench.action.closeOtherEditors'')] else [])
              @ openEvents w dir (files codeBlock) 0
         \<and> map (\<lambda>path. getCodeFileDetails (hostPlatform w) (docAt path))
               (shownPaths (fst (openCodeBlock w favorite)))
             = map (\<lambda>(name, content).
                      Some \<lparr>storageBlockId = block_id codeBlock, detailsFileName = name\<rparr>)
                 (files codeBlock)"
proof -
  let ?close = "if activeTextEditor w \<noteq> None
               then await (ExecuteCommand (js ''workbench.action.closeOtherEditors''))
                      (executeCommand w (js ''workbench.action.closeOtherEditors''))
               else ret ()"
  let ?body = "andThen (selectCodeBlock w favorite) (\<lambda>selected.
        case selected of
          None \<Rightarrow> ret ()
        | Some codeBlock \<Rightarrow>
            andThen (createTmpDir w (block_id codeBlock)) (\<lambda>directory.
            andThen ?close (\<lambda>_. openFiles w directory (files codeBlock) 0)))"
  have o: "openCodeBlock w favorite = tryCatch ?body (showError w)"
    by (simp add: openCodeBlock_def)
  have "errorsShown (fst (tryCatch ?body (showError w))) = []"
    using assms(2) unfolding o .
  from tryCatch_no_error [OF this]
  have b: "snd ?body = Inr ()" and t: "fst (openCodeBlock w favorite) = fst ?body"
    unfolding o by blast+
  have c: "createTmpDir w (block_id codeBlock) =
             ([DirSync (tmpDirPrefix (block_id codeBlock))], Inr dir)"
    by (simp add: createTmpDir_def await_def assms(3))
  have trace: "fst (openCodeBlock w favorite) =
           t0 @ DirSync (tmpDirPrefix (block_id codeBlock))
              # (if activeTextEditor w \<noteq> None
                 then [ExecuteCommand (js ''workbench.action.closeOtherEditors'')] else [])
              @ openEvents w dir (files codeBlock) 0"
  proof (cases "activeTextEditor w")
    case None
    have s2: "snd (openFiles w dir (files codeBlock) 0) = Inr ()"
      using b by (simp add: snd_andThen assms(1) c None ret_def)
    show ?thesis
      unfolding t by (simp add: fst_andThen assms(1) c None ret_def openFiles_ok [OF s2])
  next
    case (Some editor)
    show ?thesis
    proof (cases "executeCommand w (js ''workbench.action.closeOtherEditors'')")
      case (Inl e)
      then have False using b by (simp add: snd_andThen assms(1) c Some await_def)
      then show ?thesis ..
    next
      case (Inr u)
      have s2: "snd (openFiles w dir (files codeBlock) 0) = Inr ()"
        using b by (simp add: snd_andThen assms(1) c Some await_def Inr)
      show ?thesis
        unfolding t
        by (simp add: fst_andThen assms(1) c Some await_def Inr openFiles_ok [OF s2])
    qed
  qed
  have s0: "shownPaths t0 = []"
    using shownPaths_selectCodeBlock [of w favorite] assms(1) by simp
  have shown: "shownPaths (fst (openCodeBlock w favorite)) =
      map (\<lambda>(name, content). path_join w dir name) (files codeBlock)"
    unfolding trace by (simp add: shownPaths_append s0 shownPaths_openEvents)
  have "getCodeFileDetails (hostPlatform w) (docAt (path_join w dir name)) =
          Some \<lparr>storageBlockId = block_id codeBlock, detailsFileName = name\<rparr>"
    if "(name, content) \<in> set (files codeBlock)" for name content
  proof -
    from that assms(9) have n: "hasNoLineTerminator name"
      "getCodeFileDetails (hostPlatform w) (docAt name) = None"
      "path_join w dir name = dir @ path_sep (hostPlatform w) # name"
      by auto
    show ?thesis
      using decode_working_copy [OF assms(8,6,7,5) n(1,2)]
      by (subst n(3)) (simp add: assms(4))
  qed
  then have "map (\<lambda>path. getCodeFileDetails (hostPlatform w) (docAt path))
               (map (\<lambda>(name, content). path_join w dir name) (files codeBlock))
             = map (\<lambda>(name, content).
                      Some \<lparr>storageBlockId = block_id codeBlock, detailsFileName = name\<rparr>)
                 (files codeBlock)"
    by auto
  then show ?thesis using trace shown by simp
qed

text \<open>
  The scenario of the specification: the block \<open>abc123\<close> with the files
  \<open>index.js\<close> and \<open>style.css\<close>, opened with no editor open before.
\<close>

theorem open_block_editors_witness:
  "selectCodeBlock (envOpen blockJ) False =
     ([Provider IsAuthenticated, Provider (ListBlocks False), ShowQuickPick [blockJ],
       Provider (GetStorageBlock (js ''https://api/abc123''))], Inr (Some blockJ))
   \<and> errorsShown (fst (openCodeBlock (envOpen blockJ) False)) = []
   \<and> fst (openCodeBlock (envOpen blockJ) False) =
       [Provider IsAuthenticated, Provider (ListBlocks False), ShowQuickPick [blockJ],
        Provider (GetStorageBlock (js ''https://api/abc123'')),
        DirSync (js ''vscode_gist_abc123_''),
        WriteFileSync (js ''/tmp/vscode_gist_abc123_4711xYz/index.js'') (js ''let x''),
        OpenTextDocument (js ''/tmp/vscode_gist_abc123_4711xYz/index.js''),
        ShowTextDocument (js ''/tmp/vscode_gist_abc123_4711xYz/index.js''),
        ExecuteCommand (js ''workbench.action.focusFirstEditorGroup''),
        ExecuteCommand (js ''workbench.action.splitEditor''),
        WriteFileSync (js ''/tmp/vscode_gist_abc123_4711xYz/style.css'') (js ''p {}''),
        OpenTextDocument (js ''/tmp/vscode_gist_abc123_4711xYz/style.css''),
        ShowTextDocument (js ''/tmp/vscode_gist_abc123_4711xYz/style.css'')]
   \<and> map (\<lambda>path. getCodeFileDetails Posix (docAt path))
         (shownPaths (fst (openCodeBlock (envOpen blockJ) False)))
       = [Some \<lparr>storageBlockId = js ''abc123'', detailsFileName = js ''index.js''\<rparr>,
          Some \<lparr>storageBlockId = js ''abc123'', detailsFileName = js ''style.css''\<rparr>]"
proof -
  let ?w = "envOpen blockJ"
  let ?t0 = "[Provider IsAuthenticated, Provider (ListBlocks False), ShowQuickPick [blockJ],
       Provider (GetStorageBlock (js ''https://api/abc123''))]"
  let ?dir = "js ''/tmp/'' @ tmpDirPrefix (block_id blockJ) @ js ''4711xYz''"
  have p: "hostPlatform ?w = Posix" by (simp add: envOpen_def env0_def)
  have h1: "selectCodeBlock ?w False = (?t0, Inr (Some blockJ))"
    by (simp add: open_run_defs blockJ_def)
  have h2: "errorsShown (fst (openCodeBlock ?w False)) = []"
    by (simp add: open_run_defs blockJ_def)
  have h3: "dirSync ?w (tmpDirPrefix (block_id blockJ)) = Inr ?dir"
    by (simp add: envOpen_def env0_def)
  have h5: "hasNoLineTerminator (js ''/tmp/'')"
    by (simp add: hasNoLineTerminator_def js_def isLineTerminator_def)
  have h6: "0x5F \<notin> set (js ''4711xYz'')" by (simp add: js_def)
  have h7: "path_sep (hostPlatform ?w) \<notin> set (js ''4711xYz'')" by (simp add: p js_def)
  have h8: "0x5F \<notin> set (block_id blockJ)" by (simp add: blockJ_def js_def)
  have h9: "\<forall>(name, content)\<in>set (files blockJ).
           hasNoLineTerminator name
           \<and> getCodeFileDetails (hostPlatform ?w) (docAt name) = None
           \<and> path_join ?w ?dir name = ?dir @ path_sep (hostPlatform ?w) # name"
    by (simp add: p blockJ_def hasNoLineTerminator_def codec_defs envOpen_def env0_def)
  have a: "activeTextEditor ?w = None" by (simp add: envOpen_def env0_def)
  have e: "openEvents ?w ?dir (files blockJ) 0 =
       [WriteFileSync (js ''/tmp/vscode_gist_abc123_4711xYz/index.js'') (js ''let x''),
        OpenTextDocument (js ''/tmp/vscode_gist_abc123_4711xYz/index.js''),
        ShowTextDocument (js ''/tmp/vscode_gist_abc123_4711xYz/index.js''),
        ExecuteCommand (js ''workbench.action.focusFirstEditorGroup''),
        ExecuteCommand (js ''workbench.action.splitEditor''),
        WriteFileSync (js ''/tmp/vscode_gist_abc123_4711xYz/style.css'') (js ''p {}''),
        OpenTextDocument (js ''/tmp/vscode_gist_abc123_4711xYz/style.css''),
        ShowTextDocument (js ''/tmp/vscode_gist_abc123_4711xYz/style.css'')]"
    by (simp add: blockJ_def envOpen_def env0_def tmpDirPrefix_def tag_def js_def)
  have i: "block_id blockJ = js ''abc123''"
    "tmpDirPrefix (js ''abc123'') = js ''vscode_gist_abc123_''"
    "files blockJ = [(js ''index.js'', js ''let x''), (js ''style.css'', js ''p {}'')]"
    by (simp_all add: blockJ_def tmpDirPrefix_def tag_def js_def)
  note r = open_block_editors [OF h1 h2 h3 refl h5 h6 h7 h8 h9]
  have r1: "fst (openCodeBlock ?w False) =
       ?t0 @ DirSync (js ''vscode_gist_abc123_'')
          # openEvents ?w ?dir (files blockJ) 0"
    using conjunct1 [OF r] by (simp add: a i(1,2))
  have r2: "map (\<lambda>path. getCodeFileDetails Posix (docAt path))
         (shownPaths (fst (openCodeBlock ?w False)))
       = [Some \<lparr>storageBlockId = js ''abc123'', detailsFileName = js ''index.js''\<rparr>,
          Some \<lparr>storageBlockId = js ''abc123'', detailsFileName = js ''style.css''\<rparr>]"
    using conjunct2 [OF r] by (simp add: p i(1,3))
  show ?thesis using h1 h2 r1 r2 unfolding e by simp
qed

section \<open>C7: \<open>createCodeBlock\<close> needs a focused editor\<close>

text \<open>
  C7: without a focused editor \<open>createCodeBlock\<close> makes no provider call; it
  logs the error \<open>Open a file before creating\<close> and shows it as an error
  notification.  With a focused editor and an answer to the second box, the
  provider's \<open>createFile\<close> is called with the text of the selection when the
  selection is not empty and with the whole text of the document otherwise;
  and no call of \<open>createFile\<close> in a run carries any other text.
\<close>

theorem create_requires_editor:
  "(activeTextEditor w = None \<longrightarrow>
      createCodeBlock w =
        ([ConsoleError (ErrorObject (js ''Open a file before creating'')),
          ShowErrorMessage
            (js ''GIST ERROR: Open a file before creating ['' @ providerName w @ js '']'')],
         Inr ()))
   \<and> (\<forall>editor a. activeTextEditor w = Some editor
          \<and> showInputBox w (js ''Private? Y = Yes, N = No'') None = Some a \<longrightarrow>
        (\<exists>name d priv rest.
           fst (createCodeBlock w) =
             [ShowInputBox (js ''Enter description'') None,
              ShowInputBox (js ''Private? Y = Yes, N = No'') None,
              Provider (CreateFile name d
                (if isEmpty (selection editor) then getText (document editor) None
                 else getText (document editor) (Some (selection editor))) priv)] @ rest))
   \<and> (\<forall>editor name d t priv. activeTextEditor w = Some editor
          \<and> Provider (CreateFile name d t priv) \<in> set (fst (createCodeBlock w)) \<longrightarrow>
        t = (if isEmpty (selection editor) then getText (document editor) None
             else getText (document editor) (Some (selection editor))))"
proof (intro conjI allI impI)
  assume "activeTextEditor w = None"
  then show "createCodeBlock w =
        ([ConsoleError (ErrorObject (js ''Open a file before creating'')),
          ShowErrorMessage
            (js ''GIST ERROR: Open a file before creating ['' @ providerName w @ js '']'')],
         Inr ())"
    by (simp add: createCodeBlock_def run_defs js_def)
next
  fix editor a
  assume h: "activeTextEditor w = Some editor
          \<and> showInputBox w (js ''Private? Y = Yes, N = No'') None = Some a"
  let ?r = "createFile w (editorFileName w editor)
              (showInputBox w (js ''Enter description'') None) (editorText editor) (startsWithY a)"
  show "\<exists>name d priv rest.
           fst (createCodeBlock w) =
             [ShowInputBox (js ''Enter description'') None,
              ShowInputBox (js ''Private? Y = Yes, N = No'') None,
              Provider (CreateFile name d
                (if isEmpty (selection editor) then getText (document editor) None
                 else getText (document editor) (Some (selection editor))) priv)] @ rest"
    using h by (cases ?r) (simp_all add: createCodeBlock_def run_defs editorText_def)
next
  fix editor name d t priv
  assume h: "activeTextEditor w = Some editor
          \<and> Provider (CreateFile name d t priv) \<in> set (fst (createCodeBlock w))"
  then have h1: "activeTextEditor w = Some editor"
    and h2: "Provider (CreateFile name d t priv) \<in> set (fst (createCodeBlock w))"
    by simp_all
  show "t = (if isEmpty (selection editor) then getText (document editor) None
             else getText (document editor) (Some (selection editor)))"
  proof (cases "showInputBox w (js ''Private? Y = Yes, N = No'') None")
    case None
    then show ?thesis using h2 by (simp add: createCodeBlock_def run_defs h1)
  next
    case (Some a)
    let ?r = "createFile w (editorFileName w editor)
              (showInputBox w (js ''Enter description'') None) (editorText editor) (startsWithY a)"
    show ?thesis using h2
      by (cases ?r) (auto simp: createCodeBlock_def run_defs editorText_def h1 Some)
  qed
qed

text \<open>
  Two runs: no editor, and an editor of \<open>/home/u/notes.txt\<close> with the selected
  text \<open>sel\<close>, the user answering \<open>demo\<close> and \<open>Yes\<close>.
\<close>

theorem create_requires_editor_witness:
  "activeTextEditor env0 = None
   \<and> createCodeBlock env0 =
        ([ConsoleError (ErrorObject (js ''Open a file before creating'')),
          ShowErrorMessage (js ''GIST ERROR: Open a file before creating [gist]'')],
         Inr ())
   \<and> activeTextEditor envCreate = Some editorSel
   \<and> showInputBox envCreate (js ''Private? Y = Yes, N = No'') None = Some (js ''Yes'')
   \<and> \<not> isEmpty (selection editorSel)
   \<and> Provider (CreateFile (js ''notes.txt'') (Some (js ''demo'')) (js ''sel'') True)
        \<in> set (fst (createCodeBlock envCreate))
   \<and> (\<exists>name d priv rest.
         fst (createCodeBlock envCreate) =
           [ShowInputBox (js ''Enter description'') None,
            ShowInputBox (js ''Private? Y = Yes, N = No'') None,
            Provider (CreateFile name d (js ''sel'') priv)] @ rest)"
proof -
  have a1: "activeTextEditor env0 = None" by (simp add: env0_def)
  have n: "providerName env0 = js ''gist''" by (simp add: env0_def)
  have a2: "activeTextEditor envCreate = Some editorSel" by (simp add: envCreate_def)
  have a3: "showInputBox envCreate (js ''Private? Y = Yes, N = No'') None = Some (js ''Yes'')"
    by (simp add: envCreate_def js_def)
  have a4: "\<not> isEmpty (selection editorSel)" by (simp add: editorSel_def isEmpty_def)
  have g: "getText (document editorSel) (Some (selection editorSel)) = js ''sel''"
    by (simp add: editorSel_def)
  have a5: "Provider (CreateFile (js ''notes.txt'') (Some (js ''demo'')) (js ''sel'') True)
        \<in> set (fst (createCodeBlock envCreate))"
    by (simp add: createCodeBlock_def envCreate_def env0_def run_defs editorSel_def
        editorFileName_def getFileNameFromPath_def editorText_def isEmpty_def startsWithY_def
        js_def)
  have b1: "createCodeBlock env0 =
        ([ConsoleError (ErrorObject (js ''Open a file before creating'')),
          ShowErrorMessage (js ''GIST ERROR: Open a file before creating [gist]'')],
         Inr ())"
    using create_requires_editor [of env0] a1 unfolding n by (simp add: js_def)
  have b2: "\<exists>name d priv rest.
         fst (createCodeBlock envCreate) =
           [ShowInputBox (js ''Enter description'') None,
            ShowInputBox (js ''Private? Y = Yes, N = No'') None,
            Provider (CreateFile name d (js ''sel'') priv)] @ rest"
    using create_requires_editor [of envCreate] a2 a3 a4 g by auto
  show ?thesis using a1 b1 a2 a3 a4 a5 b2 by blast
qed

section \<open>C8: \<open>changeCodeBlockDescription\<close> and an empty answer\<close>

text \<open>
  C8: let the focused editor belong to a block and let the provider return
  that block, whose description fills the box.  When the box is dismissed or
  answered with the empty string, the command ends there: the box is its last
  event, the read that filled the box is its only provider call, no error is
  logged or shown, and it resolves.  When the answer is a non-empty string,
  the next event is the provider's \<open>changeDescription\<close> with the decoded block
  id and that answer.
\<close>

theorem change_description_prompt:
  assumes "activeTextEditor w = Some editor"
    and "getCodeFileDetails (hostPlatform w) (document editor) = Some details"
    and "getStorageBlockById w (storageBlockId details) = Inr codeBlock"
  shows "(showInputBox w (js ''Enter Description'') (Some (description codeBlock)) = None
          \<or> showInputBox w (js ''Enter Description'') (Some (description codeBlock)) = Some []
          \<longrightarrow>
          changeCodeBlockDescription w =
            ([Provider (GetStorageBlockById (storageBlockId details)),
              ShowInputBox (js ''Enter Description'') (Some (description codeBlock))],
             Inr ()))
       \<and> (\<forall>v. showInputBox w (js ''Enter Description'') (Some (description codeBlock)) = Some v
              \<and> v \<noteq> [] \<longrightarrow>
            (\<exists>rest. fst (changeCodeBlockDescription w) =
               [Provider (GetStorageBlockById (storageBlockId details)),
                ShowInputBox (js ''Enter Description'') (Some (description codeBlock)),
                Provider (ChangeDescription (storageBlockId details) v)] @ rest))"
proof (intro conjI allI impI)
  assume "showInputBox w (js ''Enter Description'') (Some (description codeBlock)) = None
          \<or> showInputBox w (js ''Enter Description'') (Some (description codeBlock)) = Some []"
  then show "changeCodeBlockDescription w =
            ([Provider (GetStorageBlockById (storageBlockId details)),
              ShowInputBox (js ''Enter Description'') (Some (description codeBlock))],
             Inr ())"
    using assms
    by (auto simp: changeCodeBlockDescription_def getCurrentDocument_def run_defs)
next
  fix v
  assume h: "showInputBox w (js ''Enter Description'') (Some (description codeBlock)) = Some v
              \<and> v \<noteq> []"
  show "\<exists>rest. fst (changeCodeBlockDescription w) =
               [Provider (GetStorageBlockById (storageBlockId details)),
                ShowInputBox (js ''Enter Description'') (Some (description codeBlock)),
                Provider (ChangeDescription (storageBlockId details) v)] @ rest"
    using assms h
    by (cases "changeDescription w (storageBlockId details) v")
       (simp_all add: changeCodeBlockDescription_def getCurrentDocument_def run_defs)
qed

text \<open>
  Two runs on the editor of \<open>/tmp/vscode_gist_abc123_4711xYz/a.txt\<close>: the user
  clears the box, and the user answers \<open>new text\<close>.
\<close>

theorem change_description_prompt_witness:
  "changeCodeBlockDescription (envDescribe (Some [])) =
     ([Provider (GetStorageBlockById (js ''abc123'')),
       ShowInputBox (js ''Enter Description'') (Some (js ''two files''))],
      Inr ())
   \<and> (\<exists>rest. fst (changeCodeBlockDescription (envDescribe (Some (js ''new text'')))) =
         [Provider (GetStorageBlockById (js ''abc123'')),
          ShowInputBox (js ''Enter Description'') (Some (js ''two files'')),
          Provider (ChangeDescription (js ''abc123'') (js ''new text''))] @ rest)"
proof -
  let ?ed = "editorOf (js ''/tmp/vscode_gist_abc123_4711xYz/a.txt'') (js ''one'')"
  let ?d = "\<lparr>storageBlockId = js ''abc123'', detailsFileName = js ''a.txt''\<rparr>"
  have h1: "activeTextEditor (envDescribe x) = Some ?ed" for x
    by (simp add: envDescribe_def)
  have h2: "getCodeFileDetails (hostPlatform (envDescribe x)) (document ?ed) = Some ?d" for x
    by (simp add: envDescribe_def env0_def editorOf_def getCodeFileDetails_def regexp_def
        tag_def js_def isLineTerminator_def)
  have h3: "getStorageBlockById (envDescribe x) (storageBlockId ?d) = Inr blockA" for x
    by (simp add: envDescribe_def)
  have d: "description blockA = js ''two files''" by (simp add: blockA_def)
  have e1: "showInputBox (envDescribe (Some [])) (js ''Enter Description'')
              (Some (description blockA)) = Some []"
    by (simp add: envDescribe_def)
  have e2: "showInputBox (envDescribe (Some (js ''new text''))) (js ''Enter Description'')
              (Some (description blockA)) = Some (js ''new text'')
            \<and> js ''new text'' \<noteq> []"
    by (simp add: envDescribe_def js_def)
  show ?thesis
    using change_description_prompt [OF h1 h2 h3, of "Some []"]
      change_description_prompt [OF h1 h2 h3, of "Some (js ''new text'')"] e1 e2
    unfolding d by auto
qed

section \<open>C9: the login gate\<close>

text \<open>
  C9: in a run of \<open>_selectCodeBlock\<close>, \<open>openCodeBlock\<close> or \<open>addToCodeBlock\<close>,
  every call of the provider's \<open>list\<close> comes after an \<open>isAuthenticated()\<close> that
  answered true or after a \<open>login\<close> that succeeded; and a run on a provider
  that is not authenticated in which no \<open>login\<close> succeeds has no call of
  \<open>list\<close>.
\<close>

theorem login_gate:
  assumes "t = fst (selectCodeBlock w favorite) \<or> t = fst (openCodeBlock w favorite)
           \<or> t = fst (addToCodeBlock w)"
  shows "(\<forall>before f after. t = before @ Provider (ListBlocks f) # after \<longrightarrow>
            (Provider IsAuthenticated \<in> set before \<and> isAuthenticated w)
            \<or> (\<exists>u p. Provider (Login u p) \<in> set before \<and> login w u p = Inr ()))
         \<and> (\<not> isAuthenticated w
              \<and> (\<forall>u p. Provider (Login u p) \<in> set t \<longrightarrow> login w u p \<noteq> Inr ())
            \<longrightarrow> noList t)"
proof -
  have g: "listGated w False t"
    using assms selectCodeBlock_gated openCodeBlock_gated addToCodeBlock_gated by auto
  have b: "(Provider IsAuthenticated \<in> set before \<and> isAuthenticated w)
            \<or> (\<exists>u p. Provider (Login u p) \<in> set before \<and> login w u p = Inr ())"
    if "t = before @ Provider (ListBlocks f) # after" for before f after
    using listGated_before [of w False before f after] g that by simp
  have "noList t"
    if n: "\<not> isAuthenticated w"
      and l: "\<forall>u p. Provider (Login u p) \<in> set t \<longrightarrow> login w u p \<noteq> Inr ()"
    unfolding noList_def
  proof (intro allI notI)
    fix f
    assume "Provider (ListBlocks f) \<in> set t"
    then obtain before after where s: "t = before @ Provider (ListBlocks f) # after"
      by (auto dest: split_list)
    from b [OF s] show False using n l unfolding s by auto
  qed
  then show ?thesis using b by blast
qed

text \<open>
  Two runs of \<open>addToCodeBlock\<close> on a provider that is not authenticated, the
  user giving \<open>ann\<close> and \<open>secret\<close>: the login succeeds and the list follows it;
  the login is rejected and the run ends with the error.
\<close>

theorem login_gate_witness:
  "fst (addToCodeBlock (envLogin (Inr ()))) =
     [Provider IsAuthenticated,
      ShowInputBox (js ''Enter your gist username'') None,
      ShowInputBox (js ''Enter your gist password.'') None,
      Provider (Login (js ''ann'') (js ''secret''))]
     @ Provider (ListBlocks False)
     # [ShowQuickPick [blockA],
        Provider (GetStorageBlock (js ''https://api/abc123'')),
        Provider (EditFile (js ''abc123'') (js ''a2.txt'') (js ''text'')),
        ShowInformationMessage (js ''GIST MESSAGE: File Added To Block [gist]'')]
   \<and> \<not> isAuthenticated (envLogin (Inr ()))
   \<and> login (envLogin (Inr ())) (js ''ann'') (js ''secret'') = Inr ()
   \<and> fst (addToCodeBlock (envLogin (Inl (StringValue (js ''Bad credentials''))))) =
     [Provider IsAuthenticated,
      ShowInputBox (js ''Enter your gist username'') None,
      ShowInputBox (js ''Enter your gist password.'') None,
      Provider (Login (js ''ann'') (js ''secret'')),
      ConsoleError (StringValue (js ''Bad credentials'')),
      ShowErrorMessage (js ''GIST ERROR: Bad credentials [gist]'')]
   \<and> noList (fst (addToCodeBlock (envLogin (Inl (StringValue (js ''Bad credentials''))))))"
proof -
  let ?ok = "envLogin (Inr ())"
  let ?bad = "envLogin (Inl (StringValue (js ''Bad credentials'')))"
  let ?before = "[Provider IsAuthenticated,
      ShowInputBox (js ''Enter your gist username'') None,
      ShowInputBox (js ''Enter your gist password.'') None,
      Provider (Login (js ''ann'') (js ''secret''))]"
  let ?after = "[ShowQuickPick [blockA],
        Provider (GetStorageBlock (js ''https://api/abc123'')),
        Provider (EditFile (js ''abc123'') (js ''a2.txt'') (js ''text'')),
        ShowInformationMessage (js ''GIST MESSAGE: File Added To Block [gist]'')]"
  have t: "fst (addToCodeBlock ?ok) = ?before @ Provider (ListBlocks False) # ?after"
    by (simp add: add_run_defs)
  have a: "\<not> isAuthenticated ?ok" "\<not> isAuthenticated ?bad" by (simp_all add: envLogin_def)
  have "(Provider IsAuthenticated \<in> set ?before \<and> isAuthenticated ?ok)
         \<or> (\<exists>u p. Provider (Login u p) \<in> set ?before \<and> login ?ok u p = Inr ())"
    using login_gate [of "fst (addToCodeBlock ?ok)" ?ok False] t by blast
  then have l: "login ?ok (js ''ann'') (js ''secret'') = Inr ()" using a by auto
  have t': "fst (addToCodeBlock ?bad) =
     [Provider IsAuthenticated,
      ShowInputBox (js ''Enter your gist username'') None,
      ShowInputBox (js ''Enter your gist password.'') None,
      Provider (Login (js ''ann'') (js ''secret'')),
      ConsoleError (StringValue (js ''Bad credentials'')),
      ShowErrorMessage (js ''GIST ERROR: Bad credentials [gist]'')]"
    by (simp add: add_run_defs)
  have f: "\<forall>u p. Provider (Login u p) \<in> set (fst (addToCodeBlock ?bad))
             \<longrightarrow> login ?bad u p \<noteq> Inr ()"
    by (simp add: envLogin_def)
  have n: "noList (fst (addToCodeBlock ?bad))"
    using login_gate [of "fst (addToCodeBlock ?bad)" ?bad False] a(2) f by blast
  show ?thesis using t a(1) l t' n by simp
qed

section \<open>C10: a working directory with an empty block id\<close>

text \<open>
  C10 as stated speaks of any path with a directory \<open>vscode_gist__<suffix>\<close>.
  It fails when a later part of the path matches the pattern again, since the
  last match wins: below, the decoded id is \<open>abc\<close> and the save reaches the
  provider.
\<close>

theorem empty_id_counterexample:
  "getCodeFileDetails Posix (docAt (js ''/tmp/vscode_gist__x/vscode_gist_abc_y/f.txt''))
     = Some \<lparr>storageBlockId = js ''abc'', detailsFileName = js ''f.txt''\<rparr>
   \<and> fst (onSaveTextDocument env0 (docAt (js ''/tmp/vscode_gist__x/vscode_gist_abc_y/f.txt'')))
     = [Provider (EditFile (js ''abc'') (js ''f.txt'') []),
        ShowInformationMessage (js ''GIST MESSAGE: File Saved To Block [gist]'')]"
  by (simp add: onSaveTextDocument_def env0_def run_defs codec_defs)

text \<open>
  C10, amended: take a path \<open>parent + vscode_gist__ + suffix + sep + rest\<close>
  whose \<open>suffix\<close> has no separator, whose \<open>parent\<close> has no line terminator, and
  whose part after the double underscore, \<open>suffix + sep + rest\<close>, does not
  match the pattern itself.  Then decoding succeeds with the empty string as
  \<open>storageBlockId\<close>, and \<open>onSaveTextDocument\<close> on such a document makes no
  provider call, shows nothing and resolves.
\<close>

theorem empty_id_not_saved:
  assumes "path_sep (hostPlatform w) \<notin> set sfx"
    and "hasNoLineTerminator parent"
    and "getCodeFileDetails (hostPlatform w) (docAt (sfx @ path_sep (hostPlatform w) # rest))
           = None"
    and "fileName doc = parent @ tag @ 0x5F # sfx @ path_sep (hostPlatform w) # rest"
  shows "getCodeFileDetails (hostPlatform w) doc =
           Some \<lparr>storageBlockId = [],
                 detailsFileName = takeWhile (\<lambda>c. \<not> isLineTerminator c) rest\<rparr>
         \<and> onSaveTextDocument w doc = ([], Inr ())"
proof -
  let ?p = "hostPlatform w"
  have n: "str_match (regexp ?p) (sfx @ path_sep ?p # rest) = None"
    using assms(3) by (simp add: getCodeFileDetails_def docAt_def split: option.splits)
  have pre: "\<forall>c\<in>set parent. \<not> isLineTerminator c"
    using assms(2) by (simp add: hasNoLineTerminator_def)
  have m: "rmatch (tail_re ?p) (tag @ 0x5F # sfx @ path_sep ?p # rest) =
             Some [[], takeWhile (\<lambda>c. \<not> isLineTerminator c) rest]"
    using working_dir_match [of "[]" ?p sfx rest] assms(1) by (simp add: tmpDirPrefix_def)
  have "str_match (regexp ?p) (parent @ tag @ 0x5F # sfx @ path_sep ?p # rest) =
          Some [[], takeWhile (\<lambda>c. \<not> isLineTerminator c) rest]"
  proof (rule decode_last_match [OF pre m])
    fix t
    assume "strict_suffix t (tag @ 0x5F # sfx @ path_sep ?p # rest)"
    then have "suffix t (0x5F # sfx @ path_sep ?p # rest) \<or> take 12 t \<noteq> tag"
      by (rule tag_overlap)
    then have "take 12 t \<noteq> tag \<or> suffix t (sfx @ path_sep ?p # rest)"
      by (auto simp: suffix_Cons tag_def js_def)
    then show "rmatch (tail_re ?p) t = None"
      using tail_re_needs_tag no_decode_suffix [OF n] by blast
  qed
  then have d: "getCodeFileDetails ?p doc =
      Some \<lparr>storageBlockId = [], detailsFileName = takeWhile (\<lambda>c. \<not> isLineTerminator c) rest\<rparr>"
    using assms(4) by (simp add: getCodeFileDetails_def)
  then show ?thesis by (simp add: onSaveTextDocument_def tryCatch_def ret_def)
qed

theorem empty_id_not_saved_witness:
  "path_sep (hostPlatform env0) \<notin> set (js ''98xyz'')
   \<and> hasNoLineTerminator (js ''/tmp/'')
   \<and> getCodeFileDetails (hostPlatform env0) (docAt (js ''98xyz/a.txt'')) = None
   \<and> getCodeFileDetails (hostPlatform env0) (docAt (js ''/tmp/vscode_gist__98xyz/a.txt''))
       = Some \<lparr>storageBlockId = [], detailsFileName = js ''a.txt''\<rparr>
   \<and> onSaveTextDocument env0 (docAt (js ''/tmp/vscode_gist__98xyz/a.txt'')) = ([], Inr ())"
proof -
  have p: "hostPlatform env0 = Posix" by (simp add: env0_def)
  have h1: "path_sep (hostPlatform env0) \<notin> set (js ''98xyz'')" by (simp add: p js_def)
  have h2: "hasNoLineTerminator (js ''/tmp/'')"
    by (simp add: hasNoLineTerminator_def js_def isLineTerminator_def)
  have h3: "getCodeFileDetails (hostPlatform env0)
              (docAt (js ''98xyz'' @ path_sep (hostPlatform env0) # js ''a.txt'')) = None"
    by (simp add: p codec_defs)
  have h4: "fileName (docAt (js ''/tmp/vscode_gist__98xyz/a.txt'')) =
              js ''/tmp/'' @ tag @ 0x5F # js ''98xyz'' @ path_sep (hostPlatform env0) # js ''a.txt''"
    by (simp add: p docAt_def tag_def js_def)
  have t: "takeWhile (\<lambda>c. \<not> isLineTerminator c) (js ''a.txt'') = js ''a.txt''"
    by (simp add: js_def isLineTerminator_def)
  have e: "js ''98xyz'' @ path_sep (hostPlatform env0) # js ''a.txt'' = js ''98xyz/a.txt''"
    by (simp add: p js_def)
  show ?thesis
    using h1 h2 h3 empty_id_not_saved [OF h1 h2 h3 h4] unfolding t e by blast
qed

section \<open>Further properties of the commands\<close>

text \<open>
  Save propagation: saving a document whose path decodes to a block id that
  is not empty calls the provider's \<open>editFile\<close> first, with the decoded block
  id, the decoded file name and the whole text of the document.
\<close>

theorem save_propagation:
  assumes "getCodeFileDetails (hostPlatform w) doc = Some details"
    and "storageBlockId details \<noteq> []"
  shows "\<exists>rest. fst (onSaveTextDocument w doc) =
           Provider (EditFile (storageBlockId details) (detailsFileName details)
             (getText doc None)) # rest"
  using assms
  by (cases "editFile w (storageBlockId details) (detailsFileName details) (getText doc None)")
     (simp_all add: onSaveTextDocument_def run_defs)

theorem save_propagation_witness:
  "onSaveTextDocument env0
     \<lparr>fileName = js ''/tmp/vscode_gist_abc123_4711xYz/x.txt'',
      getText = (\<lambda>_. js ''new text'')\<rparr>
   = ([Provider (EditFile (js ''abc123'') (js ''x.txt'') (js ''new text'')),
       ShowInformationMessage (js ''GIST MESSAGE: File Saved To Block [gist]'')], Inr ())"
proof -
  let ?doc = "\<lparr>fileName = js ''/tmp/vscode_gist_abc123_4711xYz/x.txt'',
               getText = (\<lambda>_. js ''new text'')\<rparr>"
  let ?d = "\<lparr>storageBlockId = js ''abc123'', detailsFileName = js ''x.txt''\<rparr>"
  have h1: "getCodeFileDetails (hostPlatform env0) ?doc = Some ?d"
    by (simp add: env0_def getCodeFileDetails_def regexp_def tag_def js_def
        isLineTerminator_def)
  have h2: "storageBlockId ?d \<noteq> []" by (simp add: js_def)
  obtain rest where r: "fst (onSaveTextDocument env0 ?doc) =
      Provider (EditFile (storageBlockId ?d) (detailsFileName ?d) (getText ?doc None)) # rest"
    using save_propagation [OF h1 h2] by blast
  have "onSaveTextDocument env0 ?doc =
      (Provider (EditFile (js ''abc123'') (js ''x.txt'') (js ''new text''))
       # [ShowInformationMessage (js ''GIST MESSAGE: File Saved To Block [gist]'')], Inr ())"
    using h1 by (simp add: onSaveTextDocument_def env0_def run_defs js_def)
  then show ?thesis using r by simp
qed

text \<open>
  The seven menu commands are one \<open>try\<close> block each, and \<open>_showError\<close> does not
  throw: whatever the provider, the host and the user do, none of them
  rejects.
\<close>

theorem menu_commands_never_reject:
  "snd (openCodeBlock w favorite) = Inr ()
   \<and> snd (createCodeBlock w) = Inr ()
   \<and> snd (openCodeBlockInBrowser w) = Inr ()
   \<and> snd (deleteCodeBlock w) = Inr ()
   \<and> snd (removeFileFromCodeBlock w) = Inr ()
   \<and> snd (addToCodeBlock w) = Inr ()
   \<and> snd (changeCodeBlockDescription w) = Inr ()"
  by (simp add: commands_resolve)

text \<open>
  A path in which the text \<open>vscode_gist_\<close> does not occur is no working copy:
  decoding it returns none.
\<close>

theorem decode_unrelated_path:
  assumes "\<forall>t. suffix t (fileName doc) \<longrightarrow> take 12 t \<noteq> tag"
  shows "getCodeFileDetails p doc = None"
proof -
  have a: "rmatch (regexp p) t = None" if "suffix t (fileName doc)" for t
    unfolding regexp_tail
  proof (rule star_none)
    fix u assume "suffix u t"
    then have "suffix u (fileName doc)" using that by (rule suffix_order.trans)
    then show "rmatch (tail_re p) u = None" using assms tail_re_needs_tag by blast
  qed
  have "str_match re s = None" if "\<And>t. suffix t s \<Longrightarrow> rmatch re t = None" for re s
    using that by (induction s) (simp_all add: suffix_Cons)
  then have "str_match (regexp p) (fileName doc) = None" using a by blast
  then show ?thesis by (simp add: getCodeFileDetails_def)
qed

theorem decode_unrelated_path_witness:
  "getCodeFileDetails Win32 (docAt (js ''notes'')) = None"
proof -
  have "\<forall>t. suffix t (fileName (docAt (js ''notes''))) \<longrightarrow> take 12 t \<noteq> tag"
    by (auto simp: docAt_def js_def tag_def suffix_Cons)
  then show ?thesis by (rule decode_unrelated_path)
qed

end
